theory Spec2Isabelle
  imports Complex_Main "HOL-Library.AList"
begin

section \<open>Python values and built-in conversions used by the service\<close>

text \<open>
  A Python \<^verbatim>\<open>str\<close> is modelled as a list of code points below 256 (the 8-bit
  \<^typ>\<open>char\<close>). A Python \<^verbatim>\<open>float\<close> is modelled by the exact value it denotes:
  a rational, or one of the two infinities, or not-a-number. Rounding to binary64,
  overflow to infinity and the sign of zero are not modelled. Python's \<^verbatim>\<open>int\<close>
  is unbounded, so it is \<^typ>\<open>int\<close>.
\<close>

datatype pyfloat = Finite rat | PosInf | NegInf | NaN

text \<open>
  The characters that \<^verbatim>\<open>int(s)\<close> and \<^verbatim>\<open>float(s)\<close> strip from both ends of
  \<^verbatim>\<open>s\<close>: tab, line feed, vertical tab, form feed, carriage return, space,
  next line (133) and no-break space (160).
\<close>

definition py_isspace :: "char \<Rightarrow> bool" where
  "py_isspace c = ((of_char c :: nat) \<in> {9, 10, 11, 12, 13, 32, 133, 160})"

definition py_strip :: "string \<Rightarrow> string" where
  "py_strip s = rev (dropWhile py_isspace (rev (dropWhile py_isspace s)))"

definition is_decimal :: "char \<Rightarrow> bool" where
  "is_decimal c = (c \<in> set ''0123456789'')"

definition digit_value :: "char \<Rightarrow> nat" where
  "digit_value c = of_char c - 48"

text \<open>
  \<^verbatim>\<open>str.isdigit()\<close>: the string is not empty and every character is a digit.
  Below 256 the digits are \<^verbatim>\<open>0\<close> to \<^verbatim>\<open>9\<close> and the superscripts two (178),
  three (179) and one (185), which \<^verbatim>\<open>int\<close> does not accept.
\<close>

definition is_digit_char :: "char \<Rightarrow> bool" where
  "is_digit_char c = (is_decimal c \<or> (of_char c :: nat) \<in> {178, 179, 185})"

definition py_isdigit :: "string \<Rightarrow> bool" where
  "py_isdigit s = (s \<noteq> [] \<and> list_all is_digit_char s)"

text \<open>
  The grammar of the Python documentation:
  \<^verbatim>\<open>digitpart ::= digit (["_"] digit)*\<close>. \<open>digit_tail\<close> reads the starred part and
  returns the digits read and the rest of the input; \<open>digitpart\<close> is \<open>None\<close> when
  the input does not start with a digit.
\<close>

fun digit_tail :: "string \<Rightarrow> string \<times> string" where
  "digit_tail [] = ([], [])"
| "digit_tail [c] = (if is_decimal c then ([c], []) else ([], [c]))"
| "digit_tail (c # d # cs) =
     (if is_decimal c then (let (ds, r) = digit_tail (d # cs) in (c # ds, r))
      else if c = CHR ''_'' \<and> is_decimal d then (let (ds, r) = digit_tail cs in (d # ds, r))
      else ([], c # d # cs))"

definition digitpart :: "string \<Rightarrow> (string \<times> string) option" where
  "digitpart s =
     (case s of
        [] \<Rightarrow> None
      | c # cs \<Rightarrow>
          if is_decimal c then (let (ds, r) = digit_tail cs in Some (c # ds, r)) else None)"

definition nat_of_digits :: "string \<Rightarrow> nat" where
  "nat_of_digits ds = foldl (\<lambda>n c. 10 * n + digit_value c) 0 ds"

text \<open>An optional sign: whether it is a minus, and the input after it.\<close>

definition take_sign :: "string \<Rightarrow> bool \<times> string" where
  "take_sign s =
     (case s of
        [] \<Rightarrow> (False, [])
      | c # cs \<Rightarrow>
          if c = CHR ''-'' then (True, cs)
          else if c = CHR ''+'' then (False, cs)
          else (False, c # cs))"

text \<open>
  \<^verbatim>\<open>int(s)\<close> for a string, base 10: surrounding whitespace, an optional sign, a
  digitpart, nothing else. \<open>None\<close> is Python's \<^verbatim>\<open>ValueError\<close>.
\<close>

definition py_int_of_str :: "string \<Rightarrow> int option" where
  "py_int_of_str s =
     (let (neg, u) = take_sign (py_strip s) in
      case digitpart u of
        None \<Rightarrow> None
      | Some (ds, r) \<Rightarrow>
          if r = [] then Some (if neg then - int (nat_of_digits ds) else int (nat_of_digits ds))
          else None)"

text \<open>\<^verbatim>\<open>str(n)\<close> for an integer: the decimal digits, with a minus sign if negative.\<close>

function digits_of_nat :: "nat \<Rightarrow> string" where
  "digits_of_nat n =
     (if n < 10 then [''0123456789'' ! n]
      else digits_of_nat (n div 10) @ [''0123456789'' ! (n mod 10)])"
  by pat_completeness auto
termination
  by (relation "measure id") auto

declare digits_of_nat.simps [simp del]

definition py_str_of_int :: "int \<Rightarrow> string" where
  "py_str_of_int i = (if i < 0 then CHR ''-'' # digits_of_nat (nat (- i)) else digits_of_nat (nat i))"

text \<open>
  \<^verbatim>\<open>float(s)\<close> for a string, after the same stripping and optional sign:
  \<^verbatim>\<open>inf\<close>, \<^verbatim>\<open>infinity\<close> or \<^verbatim>\<open>nan\<close> in any letter case, or
  \<^verbatim>\<open>number ::= [digitpart] "." digitpart | digitpart ["."]\<close> followed by an optional
  \<^verbatim>\<open>exponent ::= ("e" | "E") [sign] digitpart\<close>.
\<close>

definition ascii_lower :: "char \<Rightarrow> char" where
  "ascii_lower c =
     (case map_of (zip ''ABCDEFGHIJKLMNOPQRSTUVWXYZ'' ''abcdefghijklmnopqrstuvwxyz'') c of
        Some l \<Rightarrow> l
      | None \<Rightarrow> c)"

text \<open>The integer digits, the fraction digits and the rest of the input.\<close>

definition parse_number :: "string \<Rightarrow> (string \<times> string \<times> string) option" where
  "parse_number s =
     (case digitpart s of
        Some (ip, r) \<Rightarrow>
          (case r of
             [] \<Rightarrow> Some (ip, [], [])
           | c # r' \<Rightarrow>
               if c = CHR ''.'' then
                 (case digitpart r' of
                    Some (fp, r'') \<Rightarrow> Some (ip, fp, r'')
                  | None \<Rightarrow> Some (ip, [], r'))
               else Some (ip, [], c # r'))
      | None \<Rightarrow>
          (case s of
             [] \<Rightarrow> None
           | c # r' \<Rightarrow>
               if c = CHR ''.'' then
                 (case digitpart r' of
                    Some (fp, r'') \<Rightarrow> Some ([], fp, r'')
                  | None \<Rightarrow> None)
               else None))"

text \<open>The exponent that ends the input: 0 when nothing is left, \<open>None\<close> when malformed.\<close>

definition parse_exponent :: "string \<Rightarrow> int option" where
  "parse_exponent r =
     (case r of
        [] \<Rightarrow> Some 0
      | c # r' \<Rightarrow>
          if c = CHR ''e'' \<or> c = CHR ''E'' then
            (let (neg, u) = take_sign r' in
             case digitpart u of
               None \<Rightarrow> None
             | Some (ds, rest) \<Rightarrow>
                 if rest = [] then
                   Some (if neg then - int (nat_of_digits ds) else int (nat_of_digits ds))
                 else None)
          else None)"

definition pow10 :: "int \<Rightarrow> rat" where
  "pow10 e = (if 0 \<le> e then 10 ^ nat e else 1 / 10 ^ nat (- e))"

definition py_float_of_str :: "string \<Rightarrow> pyfloat option" where
  "py_float_of_str s =
     (let (neg, u) = take_sign (py_strip s); w = map ascii_lower u in
      if w = ''inf'' \<or> w = ''infinity'' then Some (if neg then NegInf else PosInf)
      else if w = ''nan'' then Some NaN
      else
        (case parse_number u of
           None \<Rightarrow> None
         | Some (ip, fp, r) \<Rightarrow>
             (case parse_exponent r of
                None \<Rightarrow> None
              | Some e \<Rightarrow>
                  (let m = of_nat (nat_of_digits (ip @ fp)) * pow10 (e - int (length fp))
                   in Some (Finite (if neg then - m else m))))))"

text \<open>
  \<^verbatim>\<open>round(x, ndigits)\<close> rounds the exact value of \<^verbatim>\<open>x\<close> to the nearest
  multiple of \<open>10 ^ -ndigits\<close>, a tie going to the even multiple; an infinity or
  not-a-number is returned as it is.
\<close>

definition round_half_even :: "rat \<Rightarrow> int" where
  "round_half_even q =
     (let n = \<lfloor>q\<rfloor>; d = q - of_int n in
      if d < 1 / 2 then n
      else if 1 / 2 < d then n + 1
      else if even n then n else n + 1)"

definition py_round :: "pyfloat \<Rightarrow> nat \<Rightarrow> pyfloat" where
  "py_round x ndigits =
     (case x of
        Finite q \<Rightarrow> Finite (of_int (round_half_even (q * 10 ^ ndigits)) / 10 ^ ndigits)
      | _ \<Rightarrow> x)"

text \<open>
  \<^verbatim>\<open>row.max()\<close> of a numeric array: not-a-number if any entry is, otherwise the
  largest entry; an empty array raises (\<open>None\<close>).
\<close>

fun fl_max :: "pyfloat \<Rightarrow> pyfloat \<Rightarrow> pyfloat" where
  "fl_max NaN y = NaN"
| "fl_max x NaN = NaN"
| "fl_max PosInf y = PosInf"
| "fl_max x PosInf = PosInf"
| "fl_max NegInf y = y"
| "fl_max x NegInf = x"
| "fl_max (Finite a) (Finite b) = Finite (max a b)"

definition np_max :: "pyfloat list \<Rightarrow> pyfloat option" where
  "np_max row = (case row of [] \<Rightarrow> None | x # xs \<Rightarrow> Some (foldl fl_max x xs))"

text \<open>
  A Python object as the label code sees it. \<open>PInt\<close> is an instance of \<^verbatim>\<open>int\<close>
  that is not a \<^verbatim>\<open>bool\<close>, \<open>PBool\<close> a \<^verbatim>\<open>bool\<close> (a subclass of \<^verbatim>\<open>int\<close>),
  \<open>PStr\<close> an instance of \<^verbatim>\<open>str\<close>. \<open>PObj s i j\<close> is any other object
  (\<^verbatim>\<open>None\<close>, a float, a numpy scalar, a tuple): the code observes only its
  \<^verbatim>\<open>str(x)\<close>, which is \<open>s\<close>, its \<^verbatim>\<open>int(x)\<close>, which is \<open>i\<close>, \<open>None\<close>
  when the conversion raises, and whether \<^verbatim>\<open>jsonify\<close> can serialise it, which is
  \<open>j\<close>. A \<^verbatim>\<open>numpy.int64\<close> of value 1, which is what a fitted classifier returns
  for an integer class, is \<open>PObj ''1'' (Some 1) False\<close>: it is not an instance of
  \<^verbatim>\<open>int\<close> and the JSON encoder refuses it.
\<close>

datatype pyval = PInt int | PBool bool | PStr string | PObj string "int option" bool

fun py_int :: "pyval \<Rightarrow> int option" where
  "py_int (PInt i) = Some i"
| "py_int (PBool b) = Some (if b then 1 else 0)"
| "py_int (PStr s) = py_int_of_str s"
| "py_int (PObj s i j) = i"

fun py_str :: "pyval \<Rightarrow> string" where
  "py_str (PInt i) = py_str_of_int i"
| "py_str (PBool b) = (if b then ''True'' else ''False'')"
| "py_str (PStr s) = s"
| "py_str (PObj s i j) = s"

fun isinstance_int :: "pyval \<Rightarrow> bool" where
  "isinstance_int (PInt i) = True"
| "isinstance_int (PBool b) = True"
| "isinstance_int v = False"

fun isinstance_str :: "pyval \<Rightarrow> bool" where
  "isinstance_str (PStr s) = True"
| "isinstance_str v = False"

text \<open>
  Whether the JSON encoder of \<^verbatim>\<open>jsonify\<close> accepts the value: it does for an
  \<^verbatim>\<open>int\<close>, a \<^verbatim>\<open>bool\<close> and a \<^verbatim>\<open>str\<close>, and raises \<^verbatim>\<open>TypeError\<close> for an
  object it does not know.
\<close>

fun json_serializable :: "pyval \<Rightarrow> bool" where
  "json_serializable (PInt i) = True"
| "json_serializable (PBool b) = True"
| "json_serializable (PStr s) = True"
| "json_serializable (PObj s i j) = j"

text \<open>
  A parsed JSON value, as \<^verbatim>\<open>request.get_json()\<close> returns it. A number
  without fraction or exponent is an \<^verbatim>\<open>int\<close>, any other a \<^verbatim>\<open>float\<close>; an object
  is the list of the items of the resulting dict, so its keys are distinct.
\<close>

datatype json =
    JNull
  | JBool bool
  | JInt int
  | JFloat pyfloat
  | JStr string
  | JArr "json list"
  | JObj "(string \<times> json) list"

section \<open>column\_selector.py\<close>

text \<open>
  What \<^verbatim>\<open>get_required_features\<close> can observe of a pipeline step: whether it has
  an attribute \<^verbatim>\<open>required_columns\<close>, and what \<^verbatim>\<open>list(...)\<close> of it gives
  (\<open>Broken\<close> when that raises).
\<close>

datatype attr = Missing | Broken | Value "string list"

record step =
  required_columns :: attr

definition ColumnSelector :: "string list \<Rightarrow> step" where
  "ColumnSelector cols = \<lparr>required_columns = Value cols\<rparr>"

section \<open>model\_loader.py\<close>

text \<open>
  The one-row data frame handed to the pipeline: the columns in order, each with its
  value. The pipeline is opaque: its truth value (\<^verbatim>\<open>bool(p)\<close>, used by \<^verbatim>\<open>or\<close>),
  its \<^verbatim>\<open>named_steps\<close> if it has that attribute, and its two methods, which return
  one entry per row or raise with a message (\<open>Inl\<close>).
\<close>

type_synonym dataframe = "(string \<times> json) list"

record pipeline =
  pl_truthy :: bool
  named_steps :: "(string \<rightharpoonup> step) option"
  pl_predict :: "dataframe \<Rightarrow> string + pyval list"
  pl_predict_proba :: "dataframe \<Rightarrow> string + pyfloat list list"

type_synonym metadata = "(string \<times> string) list"

text \<open>
  The object stored in the file: a dict, of which the loader reads six keys
  (\<open>None\<close> for a key that is absent or holds \<^verbatim>\<open>None\<close>), or any other object.
  A label mapping is the list of its items in iteration order.
\<close>

record container =
  c_pipeline :: "pipeline option"
  c_model :: "pipeline option"
  c_pipeline_obj :: "pipeline option"
  c_required_raw_features :: "string list option"
  c_label_mapping :: "(pyval \<times> pyval) list option"
  c_model_metadata :: "metadata option"

datatype artifact = Container container | Bare "pipeline option"

datatype disk = NoFile | Unreadable | Stored artifact

datatype exn =
    FileNotFoundError
  | UnpickleError
  | MissingPipeline
  | NotIntConvertible pyval
  | NoPackage

record package =
  pkg_pipeline :: "pipeline option"
  required_raw_features :: "string list option"
  label_mapping :: "(pyval \<times> pyval) list option"
  model_metadata :: "metadata option"

record loaded_package = package +
  label_id_to_name :: "(int \<times> pyval) list option"
  label_name_to_id :: "(string \<times> int) list option"

text \<open>
  The module state: \<^verbatim>\<open>_model_cache\<close>, and a count of the calls of
  \<^verbatim>\<open>joblib.load\<close> made so far.
\<close>

record world =
  loaded :: bool
  cached_package :: "loaded_package option"
  file_loads :: nat

definition initial_world :: world where
  "initial_world = \<lparr>loaded = False, cached_package = None, file_loads = 0\<rparr>"

definition load_model_file :: "disk \<Rightarrow> world \<Rightarrow> (exn + artifact) \<times> world" where
  "load_model_file d w =
     (case d of
        NoFile \<Rightarrow> (Inl FileNotFoundError, w)
      | Unreadable \<Rightarrow> (Inl UnpickleError, w\<lparr>file_loads := Suc (file_loads w)\<rparr>)
      | Stored a \<Rightarrow> (Inr a, w\<lparr>file_loads := Suc (file_loads w)\<rparr>))"

definition truthy :: "pipeline option \<Rightarrow> bool" where
  "truthy p = (case p of None \<Rightarrow> False | Some pl \<Rightarrow> pl_truthy pl)"

definition py_or :: "pipeline option \<Rightarrow> pipeline option \<Rightarrow> pipeline option" where
  "py_or a b = (if truthy a then a else b)"

definition normalize_package :: "artifact \<Rightarrow> exn + package" where
  "normalize_package loaded_obj =
     (let package =
        (case loaded_obj of
           Container c \<Rightarrow>
             \<lparr>pkg_pipeline = py_or (py_or (c_pipeline c) (c_model c)) (c_pipeline_obj c),
              required_raw_features = c_required_raw_features c,
              label_mapping = c_label_mapping c,
              model_metadata = c_model_metadata c\<rparr>
         | Bare obj \<Rightarrow>
             \<lparr>pkg_pipeline = obj,
              required_raw_features = None,
              label_mapping = None,
              model_metadata = None\<rparr>)
      in if pkg_pipeline package = None then Inl MissingPipeline else Inr package)"

text \<open>
  The loop over \<^verbatim>\<open>label_map.items()\<close>. When \<^verbatim>\<open>int(k)\<close> raises, the handler
  converts the value instead; when that raises too, the exception leaves the loop.
\<close>

fun label_loop ::
  "(pyval \<times> pyval) list \<Rightarrow> (int \<times> pyval) list \<times> (string \<times> int) list \<Rightarrow>
   exn + (int \<times> pyval) list \<times> (string \<times> int) list" where
  "label_loop [] acc = Inr acc"
| "label_loop ((k, v) # kvs) (id_to_name, name_to_id) =
     (case py_int k of
        Some kid \<Rightarrow>
          label_loop kvs (AList.update kid v id_to_name, AList.update (py_str v) kid name_to_id)
      | None \<Rightarrow>
          (case py_int v of
             None \<Rightarrow> Inl (NotIntConvertible v)
           | Some vid \<Rightarrow>
               label_loop kvs
                 (AList.update vid (PStr (py_str k)) id_to_name,
                  AList.update (py_str k) vid name_to_id)))"

definition ensure_loaded :: "disk \<Rightarrow> world \<Rightarrow> (exn + unit) \<times> world" where
  "ensure_loaded d w =
     (if loaded w then (Inr (), w)
      else if loaded w then (Inr (), w)
      else
        (case load_model_file d w of
           (Inl e, w1) \<Rightarrow> (Inl e, w1)
         | (Inr loaded_obj, w1) \<Rightarrow>
             (case normalize_package loaded_obj of
                Inl e \<Rightarrow> (Inl e, w1)
              | Inr package \<Rightarrow>
                  (case label_mapping package of
                     Some label_map \<Rightarrow>
                       (case label_loop label_map ([], []) of
                          Inl e \<Rightarrow> (Inl e, w1)
                        | Inr (id_to_name, name_to_id) \<Rightarrow>
                            (Inr (),
                             w1\<lparr>cached_package :=
                                   Some (package.extend package
                                     (loaded_package.fields (Some id_to_name) (Some name_to_id))),
                                 loaded := True\<rparr>))
                   | None \<Rightarrow>
                       (Inr (),
                        w1\<lparr>cached_package :=
                              Some (package.extend package (loaded_package.fields None None)),
                            loaded := True\<rparr>)))))"

definition get_pipeline :: "disk \<Rightarrow> world \<Rightarrow> (exn + loaded_package option) \<times> world" where
  "get_pipeline d w =
     (case ensure_loaded d w of
        (Inl e, w') \<Rightarrow> (Inl e, w')
      | (Inr u, w') \<Rightarrow> (Inr (cached_package w'), w'))"

definition introspect :: "pipeline option \<Rightarrow> string list option" where
  "introspect p =
     (case p of
        None \<Rightarrow> None
      | Some pl \<Rightarrow>
          (case named_steps pl of
             None \<Rightarrow> None
           | Some steps \<Rightarrow>
               (case steps ''selector'' of
                  None \<Rightarrow> None
                | Some sel \<Rightarrow>
                    (case required_columns sel of
                       Missing \<Rightarrow> None
                     | Broken \<Rightarrow> None
                     | Value cols \<Rightarrow> Some cols))))"

definition get_required_features :: "disk \<Rightarrow> world \<Rightarrow> (exn + string list) \<times> world" where
  "get_required_features d w =
     (case ensure_loaded d w of
        (Inl e, w') \<Rightarrow> (Inl e, w')
      | (Inr u, w') \<Rightarrow>
          (case cached_package w' of
             None \<Rightarrow> (Inl NoPackage, w')
           | Some package \<Rightarrow>
               (let features = required_raw_features package;
                    features = (if features = None then introspect (pkg_pipeline package)
                                else features);
                    features = (if features = None then Some [] else features)
                in (Inr (the features), w'))))"

text \<open>
  The \<^verbatim>\<open>try\<close> block of \<^verbatim>\<open>decode_label\<close>: \<open>Some\<close> what it returns, \<open>None\<close> when
  its condition is false or an exception is swallowed by the handler.
\<close>

definition decode_try :: "loaded_package option \<Rightarrow> pyval \<Rightarrow> pyval option" where
  "decode_try package prediction =
     (if isinstance_int prediction \<or> (isinstance_str prediction \<and> py_isdigit (py_str prediction))
      then
        (case py_int prediction of
           None \<Rightarrow> None
         | Some pid \<Rightarrow>
             (case package of
                None \<Rightarrow> None
              | Some pkg \<Rightarrow>
                  (case label_id_to_name pkg of
                     None \<Rightarrow> Some (PStr (py_str_of_int pid))
                   | Some id_to_name \<Rightarrow>
                       (if id_to_name \<noteq> [] \<and> pid \<in> fst ` set id_to_name
                        then map_of id_to_name pid
                        else Some (PStr (py_str_of_int pid))))))
      else None)"

definition decode_label :: "disk \<Rightarrow> world \<Rightarrow> pyval \<Rightarrow> (exn + pyval) \<times> world" where
  "decode_label d w prediction =
     (case ensure_loaded d w of
        (Inl e, w') \<Rightarrow> (Inl e, w')
      | (Inr u, w') \<Rightarrow>
          (case decode_try (cached_package w') prediction of
             Some r \<Rightarrow> (Inr r, w')
           | None \<Rightarrow>
               if isinstance_str prediction then (Inr prediction, w')
               else (Inr (PStr (py_str prediction)), w')))"

section \<open>app.py\<close>

text \<open>
  The request as the handler sees it: \<^verbatim>\<open>request.is_json\<close> false, a body that
  \<^verbatim>\<open>get_json\<close> rejects, or the parsed payload.
\<close>

datatype request = NotJson | Malformed | Body json

text \<open>
  The message stored for a field that fails coercion is formatted from the field name
  and \<^verbatim>\<open>repr\<close> of the value; it is kept as these two.
\<close>

datatype reason = NotNumeric string json

datatype failure =
    NoPipelineObject
  | PipelineRaised string
  | IndexError
  | EmptyRow
  | LoaderRaised exn
  | NotJsonSerializable

datatype response =
    ModelNotLoaded
  | ExpectedJsonBody
  | InvalidJsonBody
  | ExpectedJsonObject
  | MissingRequiredFields "string list"
  | WrongTypes "(string \<times> reason) list"
  | PrepareError
  | PredictionError failure
  | Prediction pyval pyfloat

fun status_code :: "response \<Rightarrow> nat" where
  "status_code ModelNotLoaded = 500"
| "status_code ExpectedJsonBody = 400"
| "status_code InvalidJsonBody = 400"
| "status_code ExpectedJsonObject = 400"
| "status_code (MissingRequiredFields missing) = 400"
| "status_code (WrongTypes details) = 400"
| "status_code PrepareError = 500"
| "status_code (PredictionError f) = 500"
| "status_code (Prediction label confidence) = 200"

record app =
  PIPELINE_PACKAGE :: "loaded_package option"
  REQUIRED_FEATURES :: "string list"

text \<open>The module body: both calls are inside one \<^verbatim>\<open>try\<close>.\<close>

definition startup :: "disk \<Rightarrow> world \<Rightarrow> app \<times> world" where
  "startup d w =
     (case get_pipeline d w of
        (Inl e, w1) \<Rightarrow> (\<lparr>PIPELINE_PACKAGE = None, REQUIRED_FEATURES = []\<rparr>, w1)
      | (Inr package, w1) \<Rightarrow>
          (case get_required_features d w1 of
             (Inl e, w2) \<Rightarrow> (\<lparr>PIPELINE_PACKAGE = None, REQUIRED_FEATURES = []\<rparr>, w2)
           | (Inr features, w2) \<Rightarrow>
               (\<lparr>PIPELINE_PACKAGE = package, REQUIRED_FEATURES = features\<rparr>, w2)))"

definition health :: "app \<Rightarrow> bool" where
  "health st = (PIPELINE_PACKAGE st \<noteq> None)"

text \<open>\<^verbatim>\<open>payload.get(k)\<close>: \<^verbatim>\<open>None\<close> for an absent key.\<close>

definition payload_get :: "(string \<times> json) list \<Rightarrow> string \<Rightarrow> json" where
  "payload_get payload k = (case map_of payload k of None \<Rightarrow> JNull | Some v \<Rightarrow> v)"

text \<open>
  \<^verbatim>\<open>isinstance(v, (int, float))\<close>: a \<^verbatim>\<open>bool\<close> is an instance of \<^verbatim>\<open>int\<close>.
\<close>

fun isinstance_int_float :: "json \<Rightarrow> bool" where
  "isinstance_int_float (JInt i) = True"
| "isinstance_int_float (JFloat f) = True"
| "isinstance_int_float (JBool b) = True"
| "isinstance_int_float v = False"

text \<open>
  \<^verbatim>\<open>float(v)\<close> in the \<^verbatim>\<open>else\<close> branch; \<open>None\<close> when it raises
  (\<^verbatim>\<open>TypeError\<close> for \<^verbatim>\<open>None\<close>, a list or a dict, \<^verbatim>\<open>ValueError\<close> for a
  string that is not a number).
\<close>

fun py_float :: "json \<Rightarrow> pyfloat option" where
  "py_float (JStr s) = py_float_of_str s"
| "py_float (JInt i) = Some (Finite (of_int i))"
| "py_float (JFloat f) = Some f"
| "py_float (JBool b) = Some (Finite (if b then 1 else 0))"
| "py_float v = None"

text \<open>The loop over \<^verbatim>\<open>REQUIRED_FEATURES\<close> that fills \<^verbatim>\<open>casted\<close> and \<^verbatim>\<open>type_errors\<close>.\<close>

fun coerce_loop ::
  "string list \<Rightarrow> (string \<times> json) list \<Rightarrow> (string \<times> json) list \<times> (string \<times> reason) list \<Rightarrow>
   (string \<times> json) list \<times> (string \<times> reason) list" where
  "coerce_loop [] payload acc = acc"
| "coerce_loop (k # ks) payload (casted, type_errors) =
     (let v = payload_get payload k in
      if isinstance_int_float v then coerce_loop ks payload (AList.update k v casted, type_errors)
      else
        (case py_float v of
           Some casted_val \<Rightarrow>
             coerce_loop ks payload (AList.update k (JFloat casted_val) casted, type_errors)
         | None \<Rightarrow>
             coerce_loop ks payload (casted, AList.update k (NotNumeric k v) type_errors)))"

text \<open>
  \<^verbatim>\<open>pd.DataFrame([casted], columns=REQUIRED_FEATURES)\<close>: one row, the columns in
  the order of the schema; a column without a value holds not-a-number. The
  construction is taken to succeed.
\<close>

definition DataFrame :: "(string \<times> json) list \<Rightarrow> string list \<Rightarrow> dataframe" where
  "DataFrame casted columns =
     map (\<lambda>c. (c, case map_of casted c of None \<Rightarrow> JFloat NaN | Some v \<Rightarrow> v)) columns"

text \<open>
  The second \<^verbatim>\<open>try\<close> block of the handler. It ends with
  \<^verbatim>\<open>return jsonify(response)\<close>, so a label that cannot be serialised is caught by
  the same handler; the rounded confidence is a \<^verbatim>\<open>float\<close> and always can.
\<close>

definition run_pipeline ::
  "disk \<Rightarrow> loaded_package \<Rightarrow> world \<Rightarrow> dataframe \<Rightarrow> response \<times> world" where
  "run_pipeline d package w df =
     (case pkg_pipeline package of
        None \<Rightarrow> (PredictionError NoPipelineObject, w)
      | Some pipeline_obj \<Rightarrow>
          (case pl_predict pipeline_obj df of
             Inl msg \<Rightarrow> (PredictionError (PipelineRaised msg), w)
           | Inr preds \<Rightarrow>
               (case pl_predict_proba pipeline_obj df of
                  Inl msg \<Rightarrow> (PredictionError (PipelineRaised msg), w)
                | Inr probs \<Rightarrow>
                    (case preds of
                       [] \<Rightarrow> (PredictionError IndexError, w)
                     | pred_raw # ps \<Rightarrow>
                         (case probs of
                            [] \<Rightarrow> (PredictionError IndexError, w)
                          | row # rs \<Rightarrow>
                              (case np_max row of
                                 None \<Rightarrow> (PredictionError EmptyRow, w)
                               | Some prob \<Rightarrow>
                                   (case decode_label d w pred_raw of
                                      (Inl e, w') \<Rightarrow> (PredictionError (LoaderRaised e), w')
                                    | (Inr decoded, w') \<Rightarrow>
                                        if json_serializable decoded
                                        then (Prediction decoded (py_round prob 4), w')
                                        else (PredictionError NotJsonSerializable, w'))))))))"

definition predict :: "disk \<Rightarrow> app \<Rightarrow> world \<Rightarrow> request \<Rightarrow> response \<times> world" where
  "predict d st w req =
     (case PIPELINE_PACKAGE st of
        None \<Rightarrow> (ModelNotLoaded, w)
      | Some package \<Rightarrow>
          (case req of
             NotJson \<Rightarrow> (ExpectedJsonBody, w)
           | Malformed \<Rightarrow> (InvalidJsonBody, w)
           | Body payload \<Rightarrow>
               (case payload of
                  JObj kvs \<Rightarrow>
                    (let missing = filter (\<lambda>f. f \<notin> fst ` set kvs) (REQUIRED_FEATURES st) in
                     if missing \<noteq> [] then (MissingRequiredFields missing, w)
                     else
                       (let (casted, type_errors) =
                              coerce_loop (REQUIRED_FEATURES st) kvs ([], []) in
                        if type_errors \<noteq> [] then (WrongTypes type_errors, w)
                        else run_pipeline d package w (DataFrame casted (REQUIRED_FEATURES st))))
                | _ \<Rightarrow> (ExpectedJsonObject, w))))"

section \<open>Reference definitions for the properties\<close>

text \<open>
  What the body of the validation loop does with one value, case by case: a number or
  a boolean is kept as it is, a string is parsed as a float, anything else is refused
  (\<open>None\<close>). The lemmas on \<open>coerce_loop\<close> show that the loop computes exactly this
  for every field.
\<close>

fun coerce_value :: "json \<Rightarrow> json option" where
  "coerce_value (JInt i) = Some (JInt i)"
| "coerce_value (JFloat f) = Some (JFloat f)"
| "coerce_value (JBool b) = Some (JBool b)"
| "coerce_value (JStr s) = map_option JFloat (py_float_of_str s)"
| "coerce_value JNull = None"
| "coerce_value (JArr xs) = None"
| "coerce_value (JObj kvs) = None"

text \<open>
  The decoding of a prediction, case by case. A prediction denotes a class id when it
  is an integer (a \<^verbatim>\<open>bool\<close> is one: \<^verbatim>\<open>True\<close> is 1) or a string made of the
  digits \<^verbatim>\<open>0\<close> to \<^verbatim>\<open>9\<close> only. Such a prediction is looked up among the names and
  gives the name found, or the id written out; any other string is returned as it is,
  and any other value is converted by \<^verbatim>\<open>str\<close>.
\<close>

definition only_decimal_digits :: "string \<Rightarrow> bool" where
  "only_decimal_digits s = (s \<noteq> [] \<and> list_all is_decimal s)"

fun class_id :: "pyval \<Rightarrow> int option" where
  "class_id (PInt i) = Some i"
| "class_id (PBool b) = Some (if b then 1 else 0)"
| "class_id (PStr s) = (if only_decimal_digits s then Some (int (nat_of_digits s)) else None)"
| "class_id (PObj s i j) = None"

definition decode_spec :: "(int \<rightharpoonup> pyval) \<Rightarrow> pyval \<Rightarrow> pyval" where
  "decode_spec idToName prediction =
     (case class_id prediction of
        Some pid \<Rightarrow>
          (case idToName pid of
             Some name \<Rightarrow> name
           | None \<Rightarrow> PStr (py_str_of_int pid))
      | None \<Rightarrow>
          (case prediction of
             PStr s \<Rightarrow> prediction
           | _ \<Rightarrow> PStr (py_str prediction)))"

text \<open>The mapping from ids to names of a package; empty when no codec was built.\<close>

definition id_to_name_of :: "loaded_package option \<Rightarrow> (int \<rightharpoonup> pyval)" where
  "id_to_name_of package =
     (case package of
        None \<Rightarrow> Map.empty
      | Some pkg \<Rightarrow>
          (case label_id_to_name pkg of
             None \<Rightarrow> Map.empty
           | Some id_to_name \<Rightarrow> map_of id_to_name))"

text \<open>
  What the stored object declares and the pipeline it holds, as the loader reads them:
  the feature list under \<^verbatim>\<open>required_raw_features\<close> of a dict, and the first true
  value among its keys \<^verbatim>\<open>pipeline\<close>, \<^verbatim>\<open>model\<close> and \<^verbatim>\<open>pipeline_obj\<close>; any
  other object declares nothing and is the pipeline itself.
\<close>

definition declared_features :: "artifact \<Rightarrow> string list option" where
  "declared_features a =
     (case a of Container c \<Rightarrow> c_required_raw_features c | Bare obj \<Rightarrow> None)"

definition stored_pipeline :: "artifact \<Rightarrow> pipeline option" where
  "stored_pipeline a =
     (case a of
        Container c \<Rightarrow> py_or (py_or (c_pipeline c) (c_model c)) (c_pipeline_obj c)
      | Bare obj \<Rightarrow> obj)"

text \<open>
  The module state after any sequence of calls of the three public functions, from the
  state at import.
\<close>

datatype call = GetPipeline | GetRequiredFeatures | DecodeLabel pyval

fun after_call :: "disk \<Rightarrow> world \<Rightarrow> call \<Rightarrow> world" where
  "after_call d w GetPipeline = snd (get_pipeline d w)"
| "after_call d w GetRequiredFeatures = snd (get_required_features d w)"
| "after_call d w (DecodeLabel prediction) = snd (decode_label d w prediction)"

definition run_calls :: "disk \<Rightarrow> call list \<Rightarrow> world" where
  "run_calls d calls = foldl (after_call d) initial_world calls"

text \<open>The module state after the application has answered a list of requests.\<close>

definition serve :: "disk \<Rightarrow> app \<Rightarrow> world \<Rightarrow> request list \<Rightarrow> world" where
  "serve d st w reqs = foldl (\<lambda>w req. snd (predict d st w req)) w reqs"

text \<open>
  The same classes written in the two orientations a label mapping can have, and an
  artifact that carries a given label mapping.
\<close>

definition id_keyed :: "(int \<times> string) list \<Rightarrow> (pyval \<times> pyval) list" where
  "id_keyed ps = map (\<lambda>(i, n). (PInt i, PStr n)) ps"

definition name_keyed :: "(int \<times> string) list \<Rightarrow> (pyval \<times> pyval) list" where
  "name_keyed ps = map (\<lambda>(i, n). (PStr n, PInt i)) ps"

definition with_labels :: "container \<Rightarrow> (pyval \<times> pyval) list \<Rightarrow> disk" where
  "with_labels c label_map = Stored (Container (c\<lparr>c_label_mapping := Some label_map\<rparr>))"

section \<open>Example artifacts\<close>

text \<open>
  A stub pipeline that always predicts class 1 with probabilities 0.1 and 0.9, stored
  with the schema \<^verbatim>\<open>["a", "b"]\<close> and the label mapping \<^verbatim>\<open>{1: "DDoS"}\<close>.
\<close>

definition stub_pipeline :: pipeline where
  "stub_pipeline =
     \<lparr>pl_truthy = True,
      named_steps = None,
      pl_predict = (\<lambda>df. Inr [PInt 1]),
      pl_predict_proba = (\<lambda>df. Inr [[Finite (1 / 10), Finite (9 / 10)]])\<rparr>"

definition stub_container :: container where
  "stub_container =
     \<lparr>c_pipeline = Some stub_pipeline,
      c_model = None,
      c_pipeline_obj = None,
      c_required_raw_features = Some [''a'', ''b''],
      c_label_mapping = Some [(PInt 1, PStr ''DDoS'')],
      c_model_metadata = None\<rparr>"

definition stub_disk :: disk where
  "stub_disk = Stored (Container stub_container)"

text \<open>The package and the module state that loading the stub artifact produces.\<close>

definition stub_package :: loaded_package where
  "stub_package =
     \<lparr>pkg_pipeline = Some stub_pipeline,
      required_raw_features = Some [''a'', ''b''],
      label_mapping = Some [(PInt 1, PStr ''DDoS'')],
      model_metadata = None,
      label_id_to_name = Some [(1, PStr ''DDoS'')],
      label_name_to_id = Some [(''DDoS'', 1)]\<rparr>"

definition stub_world :: world where
  "stub_world = \<lparr>loaded = True, cached_package = Some stub_package, file_loads = 1\<rparr>"

definition stub_app :: app where
  "stub_app = \<lparr>PIPELINE_PACKAGE = Some stub_package, REQUIRED_FEATURES = [''a'', ''b'']\<rparr>"

text \<open>
  An artifact that declares an empty feature list although its pipeline has a selector
  step configured with two columns.
\<close>

definition selector_pipeline :: pipeline where
  "selector_pipeline =
     stub_pipeline\<lparr>named_steps := Some [''selector'' \<mapsto> ColumnSelector [''x'', ''y'']]\<rparr>"

definition empty_schema_disk :: disk where
  "empty_schema_disk =
     Stored (Container (stub_container
       \<lparr>c_pipeline := Some selector_pipeline, c_required_raw_features := Some []\<rparr>))"

text \<open>A dict that holds the selector pipeline under the key \<^verbatim>\<open>model\<close> and nothing else.\<close>

definition model_key_container :: container where
  "model_key_container =
     \<lparr>c_pipeline = None,
      c_model = Some selector_pipeline,
      c_pipeline_obj = None,
      c_required_raw_features = None,
      c_label_mapping = None,
      c_model_metadata = None\<rparr>"

text \<open>
  The stub artifact with a pipeline that predicts the class as a fitted classifier
  does, as the \<^verbatim>\<open>numpy.int64\<close> of value 1.
\<close>

definition numpy_pipeline :: pipeline where
  "numpy_pipeline = stub_pipeline\<lparr>pl_predict := (\<lambda>df. Inr [PObj ''1'' (Some 1) False])\<rparr>"

definition numpy_disk :: disk where
  "numpy_disk = Stored (Container (stub_container\<lparr>c_pipeline := Some numpy_pipeline\<rparr>))"


section \<open>Facts about the loader\<close>

lemma ensure_loaded_when_loaded: "loaded w \<Longrightarrow> ensure_loaded d w = (Inr (), w)"
  by (simp add: ensure_loaded_def)

lemma ensure_loaded_sets_flag: "ensure_loaded d w = (Inr u, w') \<Longrightarrow> loaded w'"
  by (auto simp: ensure_loaded_def load_model_file_def
      split: if_splits disk.splits sum.splits option.splits prod.splits)

lemma startup_no_package_no_schema:
  "PIPELINE_PACKAGE (fst (startup d w)) = None \<Longrightarrow> REQUIRED_FEATURES (fst (startup d w)) = []"
proof -
  assume none: "PIPELINE_PACKAGE (fst (startup d w)) = None"
  show ?thesis
  proof (cases "get_pipeline d w")
    case (Pair r w1)
    show ?thesis
    proof (cases r)
      case (Inl e)
      with Pair show ?thesis by (simp add: startup_def)
    next
      case (Inr package)
      obtain r2 w2 where g: "get_required_features d w1 = (r2, w2)"
        by (cases "get_required_features d w1")
      show ?thesis
      proof (cases r2)
        case (Inl e)
        with Pair Inr g show ?thesis by (simp add: startup_def)
      next
        case (Inr features)
        from Pair \<open>r = Inr package\<close> g Inr none have pn: "package = None"
          by (simp add: startup_def)
        from Pair \<open>r = Inr package\<close> have l: "loaded w1" and c: "cached_package w1 = package"
          by (auto simp: get_pipeline_def split: prod.splits sum.splits
              dest: ensure_loaded_sets_flag)
        from l c pn have "get_required_features d w1 = (Inl NoPackage, w1)"
          by (simp add: get_required_features_def ensure_loaded_when_loaded)
        with g Inr show ?thesis by simp
      qed
    qed
  qed
qed

lemma ensure_loaded_stub: "ensure_loaded stub_disk initial_world = (Inr (), stub_world)"
  by (simp add: ensure_loaded_def initial_world_def stub_disk_def load_model_file_def
      normalize_package_def stub_container_def py_or_def truthy_def stub_pipeline_def
      stub_package_def stub_world_def package.defs loaded_package.defs)

lemma startup_stub: "startup stub_disk initial_world = (stub_app, stub_world)"
  by (simp add: startup_def get_pipeline_def get_required_features_def ensure_loaded_stub
      ensure_loaded_when_loaded stub_world_def stub_package_def stub_app_def)

section \<open>The validator\<close>

lemma coerce_loop_errors:
  "map_of (snd (coerce_loop ks payload (casted, errs))) =
     (\<lambda>k. if k \<in> set ks \<and> coerce_value (payload_get payload k) = None
          then Some (NotNumeric k (payload_get payload k)) else map_of errs k)"
proof (induction ks arbitrary: casted errs)
  case Nil
  show ?case by simp
next
  case (Cons k ks)
  show ?case
  proof (cases "payload_get payload k")
    case (JStr s)
    then show ?thesis
      by (cases "py_float_of_str s") (auto simp: Cons.IH Let_def update_conv' fun_eq_iff)
  qed (auto simp: Cons.IH Let_def update_conv' fun_eq_iff)
qed

lemma coerce_loop_casted:
  "map_of (fst (coerce_loop ks payload (casted, errs))) =
     (\<lambda>k. if k \<in> set ks \<and> coerce_value (payload_get payload k) \<noteq> None
          then coerce_value (payload_get payload k) else map_of casted k)"
proof (induction ks arbitrary: casted errs)
  case Nil
  show ?case by simp
next
  case (Cons k ks)
  show ?case
  proof (cases "payload_get payload k")
    case (JStr s)
    then show ?thesis
      by (cases "py_float_of_str s") (auto simp: Cons.IH Let_def update_conv' fun_eq_iff)
  qed (auto simp: Cons.IH Let_def update_conv' fun_eq_iff)
qed

lemma coerce_loop_error_keys:
  "fst ` set (snd (coerce_loop ks payload ([], []))) =
     {k \<in> set ks. coerce_value (payload_get payload k) = None}"
proof -
  have "fst ` set (snd (coerce_loop ks payload ([], []))) =
        dom (map_of (snd (coerce_loop ks payload ([], []))))"
    by (simp add: dom_map_of_conv_image_fst)
  also have "\<dots> = {k \<in> set ks. coerce_value (payload_get payload k) = None}"
    by (auto simp: coerce_loop_errors dom_def)
  finally show ?thesis .
qed

lemma coerce_value_None_iff:
  "coerce_value v = None \<longleftrightarrow> \<not> isinstance_int_float v \<and> py_float v = None"
  by (cases v) auto

lemma predict_validated:
  assumes pk: "PIPELINE_PACKAGE st = Some package"
    and present: "set (REQUIRED_FEATURES st) \<subseteq> fst ` set kvs"
  shows "predict d st w (Body (JObj kvs)) =
     (if snd (coerce_loop (REQUIRED_FEATURES st) kvs ([], [])) \<noteq> []
      then (WrongTypes (snd (coerce_loop (REQUIRED_FEATURES st) kvs ([], []))), w)
      else run_pipeline d package w
             (DataFrame (fst (coerce_loop (REQUIRED_FEATURES st) kvs ([], [])))
                (REQUIRED_FEATURES st)))"
proof -
  from present have "filter (\<lambda>f. f \<notin> fst ` set kvs) (REQUIRED_FEATURES st) = []"
    by (auto simp: filter_empty_conv)
  with pk show ?thesis
    by (simp add: predict_def split: prod.splits)
qed

lemma no_errors_iff:
  "snd (coerce_loop ks payload ([], [])) = [] \<longleftrightarrow>
     (\<forall>k\<in>set ks. coerce_value (payload_get payload k) \<noteq> None)"
proof -
  have "snd (coerce_loop ks payload ([], [])) = [] \<longleftrightarrow>
        fst ` set (snd (coerce_loop ks payload ([], []))) = {}"
    by simp
  also have "\<dots> \<longleftrightarrow> (\<forall>k\<in>set ks. coerce_value (payload_get payload k) \<noteq> None)"
    by (auto simp: coerce_loop_error_keys)
  finally show ?thesis .
qed

lemma frame_of_coerced:
  assumes "\<forall>k\<in>set ks. coerce_value (payload_get payload k) \<noteq> None"
  shows "DataFrame (fst (coerce_loop ks payload ([], []))) ks =
         map (\<lambda>k. (k, the (coerce_value (payload_get payload k)))) ks"
  using assms by (auto simp: DataFrame_def coerce_loop_casted split: option.splits)

text \<open>
  C3. A JSON object that lacks at least one field of the schema is answered with
  status 400 and the list of the missing fields: the fields of the schema that are not
  keys of the object, whatever other keys it has. The answer is never the one for
  wrong types. The schema is the one computed at startup, so the model is loaded
  whenever a field can be missing.
\<close>

theorem missing_fields_reported:
  assumes "f \<in> set (REQUIRED_FEATURES (fst (startup d w0)))"
    and "f \<notin> fst ` set kvs"
  shows "predict d (fst (startup d w0)) w (Body (JObj kvs)) =
           (MissingRequiredFields
              (filter (\<lambda>f. f \<notin> fst ` set kvs) (REQUIRED_FEATURES (fst (startup d w0)))), w)
         \<and> set (filter (\<lambda>f. f \<notin> fst ` set kvs) (REQUIRED_FEATURES (fst (startup d w0)))) =
             set (REQUIRED_FEATURES (fst (startup d w0))) - fst ` set kvs
         \<and> status_code (fst (predict d (fst (startup d w0)) w (Body (JObj kvs)))) = 400
         \<and> (\<forall>details. fst (predict d (fst (startup d w0)) w (Body (JObj kvs))) \<noteq>
               WrongTypes details)"
proof -
  let ?st = "fst (startup d w0)"
  let ?missing = "filter (\<lambda>f. f \<notin> fst ` set kvs) (REQUIRED_FEATURES ?st)"
  from assms have ne: "?missing \<noteq> []"
    by (auto simp: filter_empty_conv)
  from assms(1) have "REQUIRED_FEATURES ?st \<noteq> []" by auto
  then obtain package where pk: "PIPELINE_PACKAGE ?st = Some package"
    using startup_no_package_no_schema [of d w0] by (cases "PIPELINE_PACKAGE ?st") auto
  from ne pk have p: "predict d ?st w (Body (JObj kvs)) = (MissingRequiredFields ?missing, w)"
    by (simp add: predict_def)
  have s: "set ?missing = set (REQUIRED_FEATURES ?st) - fst ` set kvs" by auto
  from p s show ?thesis by simp
qed

theorem missing_fields_reported_witness:
  "''b'' \<in> set (REQUIRED_FEATURES (fst (startup stub_disk initial_world)))
   \<and> ''b'' \<notin> fst ` set [(''a'', JStr ''x''), (''extra'', JInt 7)]
   \<and> fst (predict stub_disk (fst (startup stub_disk initial_world)) initial_world
        (Body (JObj [(''a'', JStr ''x''), (''extra'', JInt 7)]))) = MissingRequiredFields [''b'']"
proof -
  have h1: "''b'' \<in> set (REQUIRED_FEATURES (fst (startup stub_disk initial_world)))"
    by code_simp
  have h2: "''b'' \<notin> fst ` set [(''a'', JStr ''x''), (''extra'', JInt 7)]"
    by simp
  have e: "filter (\<lambda>f. f \<notin> fst ` set [(''a'', JStr ''x''), (''extra'', JInt 7)])
             (REQUIRED_FEATURES (fst (startup stub_disk initial_world))) = [''b'']"
    by code_simp
  from missing_fields_reported [OF h1 h2, of initial_world] e h1 h2 show ?thesis
    by simp
qed

text \<open>
  C4. When the object has every field of the schema and at least one value is neither
  of numeric type nor convertible by \<^verbatim>\<open>float\<close>, the answer is status 400 with a
  details mapping whose keys are exactly the fields that fail, each with its own
  message: the loop visits the whole schema before the handler answers.
\<close>

theorem type_errors_report_every_failing_field:
  assumes present: "set (REQUIRED_FEATURES (fst (startup d w0))) \<subseteq> fst ` set kvs"
    and k: "k \<in> set (REQUIRED_FEATURES (fst (startup d w0)))"
    and fails: "\<not> isinstance_int_float (payload_get kvs k)" "py_float (payload_get kvs k) = None"
  shows "\<exists>details.
           predict d (fst (startup d w0)) w (Body (JObj kvs)) = (WrongTypes details, w)
           \<and> status_code (WrongTypes details) = 400
           \<and> fst ` set details =
               {f \<in> set (REQUIRED_FEATURES (fst (startup d w0))).
                  \<not> isinstance_int_float (payload_get kvs f) \<and> py_float (payload_get kvs f) = None}
           \<and> (\<forall>f\<in>set (REQUIRED_FEATURES (fst (startup d w0))).
                 \<not> isinstance_int_float (payload_get kvs f) \<and> py_float (payload_get kvs f) = None \<longrightarrow>
                 map_of details f = Some (NotNumeric f (payload_get kvs f)))"
proof -
  let ?st = "fst (startup d w0)"
  let ?details = "snd (coerce_loop (REQUIRED_FEATURES ?st) kvs ([], []))"
  from k have "REQUIRED_FEATURES ?st \<noteq> []" by auto
  then obtain package where pk: "PIPELINE_PACKAGE ?st = Some package"
    using startup_no_package_no_schema [of d w0] by (cases "PIPELINE_PACKAGE ?st") auto
  from k fails have "?details \<noteq> []"
    by (auto simp: no_errors_iff coerce_value_None_iff)
  with predict_validated [OF pk present, of d w]
  have p: "predict d ?st w (Body (JObj kvs)) = (WrongTypes ?details, w)" by simp
  have keys: "fst ` set ?details =
      {f \<in> set (REQUIRED_FEATURES ?st).
         \<not> isinstance_int_float (payload_get kvs f) \<and> py_float (payload_get kvs f) = None}"
    by (simp add: coerce_loop_error_keys coerce_value_None_iff)
  have vals: "\<forall>f\<in>set (REQUIRED_FEATURES ?st).
      \<not> isinstance_int_float (payload_get kvs f) \<and> py_float (payload_get kvs f) = None \<longrightarrow>
      map_of ?details f = Some (NotNumeric f (payload_get kvs f))"
    by (simp add: coerce_loop_errors coerce_value_None_iff)
  from p keys vals show ?thesis by (intro exI [of _ ?details]) simp
qed

lemma stub_schema: "REQUIRED_FEATURES (fst (startup stub_disk initial_world)) = [''a'', ''b'']"
  by (simp add: startup_stub stub_app_def)

theorem type_errors_report_every_failing_field_witness:
  "set (REQUIRED_FEATURES (fst (startup stub_disk initial_world)))
     \<subseteq> fst ` set [(''a'', JStr ''x''), (''b'', JArr [JInt 1])]
   \<and> (\<exists>details.
         fst (predict stub_disk (fst (startup stub_disk initial_world)) stub_world
           (Body (JObj [(''a'', JStr ''x''), (''b'', JArr [JInt 1])]))) = WrongTypes details
         \<and> fst ` set details = {''a'', ''b''})"
proof -
  let ?kvs = "[(''a'', JStr ''x''), (''b'', JArr [JInt 1])]"
  have h1: "set (REQUIRED_FEATURES (fst (startup stub_disk initial_world))) \<subseteq> fst ` set ?kvs"
    by (simp add: stub_schema)
  have h2: "''a'' \<in> set (REQUIRED_FEATURES (fst (startup stub_disk initial_world)))"
    by (simp add: stub_schema)
  have va: "payload_get ?kvs ''a'' = JStr ''x''" and vb: "payload_get ?kvs ''b'' = JArr [JInt 1]"
    by (simp_all add: payload_get_def)
  have h3: "\<not> isinstance_int_float (payload_get ?kvs ''a'')"
    by (simp only: va isinstance_int_float.simps) simp
  have fx: "py_float_of_str ''x'' = None"
    by code_simp
  have h4: "py_float (payload_get ?kvs ''a'') = None"
    by (simp only: va py_float.simps fx)
  have s: "{f \<in> set (REQUIRED_FEATURES (fst (startup stub_disk initial_world))).
            \<not> isinstance_int_float (payload_get ?kvs f) \<and> py_float (payload_get ?kvs f) = None}
          = {''a'', ''b''}"
    unfolding stub_schema using va vb fx by auto
  from type_errors_report_every_failing_field [OF h1 h2 h3 h4, of stub_world]
  obtain details where
    "predict stub_disk (fst (startup stub_disk initial_world)) stub_world (Body (JObj ?kvs)) =
       (WrongTypes details, stub_world)"
    and "fst ` set details =
       {f \<in> set (REQUIRED_FEATURES (fst (startup stub_disk initial_world))).
            \<not> isinstance_int_float (payload_get ?kvs f) \<and> py_float (payload_get ?kvs f) = None}"
    by blast
  with s have "\<exists>details.
         fst (predict stub_disk (fst (startup stub_disk initial_world)) stub_world
           (Body (JObj ?kvs))) = WrongTypes details
         \<and> fst ` set details = {''a'', ''b''}"
    by (intro exI [of _ details]) (simp only: fst_conv simp_thms)
  with h1 show ?thesis by (rule conjI)
qed

text \<open>
  C1, as the code has it. When the object has every field of the schema, each value is
  coerced by \<open>coerce_value\<close>: a value of numeric type is kept unchanged, and so is a
  boolean, which is an instance of \<^verbatim>\<open>int\<close>; a string goes through \<^verbatim>\<open>float\<close>, so
  \<^verbatim>\<open>"3.5"\<close> becomes 3.5; null, an array and an object are refused. If every field
  is accepted, the pipeline receives the coerced values in schema order; a field that
  is refused is named in the details of a 400 answer.
\<close>

theorem coercion_by_value:
  assumes pk: "PIPELINE_PACKAGE st = Some package"
    and present: "set (REQUIRED_FEATURES st) \<subseteq> fst ` set kvs"
  shows "((\<forall>k\<in>set (REQUIRED_FEATURES st). coerce_value (payload_get kvs k) \<noteq> None) \<longrightarrow>
            predict d st w (Body (JObj kvs)) =
              run_pipeline d package w
                (map (\<lambda>k. (k, the (coerce_value (payload_get kvs k)))) (REQUIRED_FEATURES st)))
         \<and> (\<forall>k\<in>set (REQUIRED_FEATURES st). coerce_value (payload_get kvs k) = None \<longrightarrow>
               (\<exists>details. predict d st w (Body (JObj kvs)) = (WrongTypes details, w)
                  \<and> status_code (WrongTypes details) = 400
                  \<and> map_of details k = Some (NotNumeric k (payload_get kvs k))))
         \<and> coerce_value (JStr ''3.5'') = Some (JFloat (Finite (7 / 2)))
         \<and> coerce_value (JInt i) = Some (JInt i)
         \<and> coerce_value (JFloat x) = Some (JFloat x)
         \<and> coerce_value (JBool b) = Some (JBool b)
         \<and> coerce_value JNull = None
         \<and> coerce_value (JArr xs) = None
         \<and> coerce_value (JObj obj) = None"
proof (intro conjI impI ballI)
  assume ok: "\<forall>k\<in>set (REQUIRED_FEATURES st). coerce_value (payload_get kvs k) \<noteq> None"
  then have "snd (coerce_loop (REQUIRED_FEATURES st) kvs ([], [])) = []"
    by (simp add: no_errors_iff)
  with predict_validated [OF pk present, of d w] frame_of_coerced [OF ok]
  show "predict d st w (Body (JObj kvs)) =
          run_pipeline d package w
            (map (\<lambda>k. (k, the (coerce_value (payload_get kvs k)))) (REQUIRED_FEATURES st))"
    by simp
next
  fix k
  assume k: "k \<in> set (REQUIRED_FEATURES st)" and bad: "coerce_value (payload_get kvs k) = None"
  let ?details = "snd (coerce_loop (REQUIRED_FEATURES st) kvs ([], []))"
  from k bad have "?details \<noteq> []" by (auto simp: no_errors_iff)
  with predict_validated [OF pk present, of d w]
  have "predict d st w (Body (JObj kvs)) = (WrongTypes ?details, w)" by simp
  moreover from k bad have "map_of ?details k = Some (NotNumeric k (payload_get kvs k))"
    by (simp add: coerce_loop_errors)
  ultimately show "\<exists>details. predict d st w (Body (JObj kvs)) = (WrongTypes details, w)
      \<and> status_code (WrongTypes details) = 400
      \<and> map_of details k = Some (NotNumeric k (payload_get kvs k))"
    by simp
next
  show "coerce_value (JStr ''3.5'') = Some (JFloat (Finite (7 / 2)))"
    by code_simp
qed simp_all

theorem coercion_by_value_witness:
  "PIPELINE_PACKAGE stub_app = Some stub_package
   \<and> set (REQUIRED_FEATURES stub_app) \<subseteq> fst ` set [(''a'', JInt 1), (''b'', JStr ''2.5'')]
   \<and> predict stub_disk stub_app stub_world (Body (JObj [(''a'', JInt 1), (''b'', JStr ''2.5'')])) =
       run_pipeline stub_disk stub_package stub_world
         [(''a'', JInt 1), (''b'', JFloat (Finite (5 / 2)))]
   \<and> (\<exists>details.
         predict stub_disk stub_app stub_world (Body (JObj [(''a'', JInt 1), (''b'', JNull)])) =
           (WrongTypes details, stub_world)
         \<and> map_of details ''b'' = Some (NotNumeric ''b'' JNull))"
proof -
  let ?good = "[(''a'', JInt 1), (''b'', JStr ''2.5'')]"
  let ?bad = "[(''a'', JInt 1), (''b'', JNull)]"
  have pk: "PIPELINE_PACKAGE stub_app = Some stub_package"
    by (simp add: stub_app_def)
  have feats: "REQUIRED_FEATURES stub_app = [''a'', ''b'']"
    by (simp add: stub_app_def)
  have g: "set (REQUIRED_FEATURES stub_app) \<subseteq> fst ` set ?good"
    and b: "set (REQUIRED_FEATURES stub_app) \<subseteq> fst ` set ?bad"
    by (simp_all add: feats)
  have f25: "py_float_of_str ''2.5'' = Some (Finite (5 / 2))"
    by code_simp
  have ga: "coerce_value (payload_get ?good ''a'') = Some (JInt 1)"
    and gb: "coerce_value (payload_get ?good ''b'') = Some (JFloat (Finite (5 / 2)))"
    and bb: "coerce_value (payload_get ?bad ''b'') = None"
    by (simp_all add: payload_get_def f25)
  from ga gb have ok: "\<forall>k\<in>set (REQUIRED_FEATURES stub_app). coerce_value (payload_get ?good k) \<noteq> None"
    by (simp add: feats)
  have frame: "map (\<lambda>k. (k, the (coerce_value (payload_get ?good k)))) (REQUIRED_FEATURES stub_app) =
      [(''a'', JInt 1), (''b'', JFloat (Finite (5 / 2)))]"
    by (simp add: feats ga gb)
  from coercion_by_value [OF pk g, of stub_disk stub_world] ok
  have "predict stub_disk stub_app stub_world (Body (JObj ?good)) =
      run_pipeline stub_disk stub_package stub_world
        (map (\<lambda>k. (k, the (coerce_value (payload_get ?good k)))) (REQUIRED_FEATURES stub_app))"
    by blast
  then have c1: "predict stub_disk stub_app stub_world (Body (JObj ?good)) =
      run_pipeline stub_disk stub_package stub_world
        [(''a'', JInt 1), (''b'', JFloat (Finite (5 / 2)))]"
    by (simp only: frame)
  have kb: "''b'' \<in> set (REQUIRED_FEATURES stub_app)"
    by (simp add: feats)
  have vb: "payload_get ?bad ''b'' = JNull"
    by (simp add: payload_get_def)
  from coercion_by_value [OF pk b, of stub_disk stub_world] kb bb
  have "\<exists>details. predict stub_disk stub_app stub_world (Body (JObj ?bad)) =
           (WrongTypes details, stub_world)
         \<and> status_code (WrongTypes details) = 400
         \<and> map_of details ''b'' = Some (NotNumeric ''b'' (payload_get ?bad ''b''))"
    by blast
  then have c2: "\<exists>details. predict stub_disk stub_app stub_world (Body (JObj ?bad)) =
           (WrongTypes details, stub_world)
         \<and> map_of details ''b'' = Some (NotNumeric ''b'' JNull)"
    unfolding vb by blast
  from pk g c1 c2 show ?thesis by (intro conjI)
qed

text \<open>
  C1 as stated fails on a boolean: with the schema \<^verbatim>\<open>["a", "b"]\<close>, the request
  \<^verbatim>\<open>{"a": true, "b": "2.5"}\<close> is not answered with a type error for \<^verbatim>\<open>a\<close> but
  with a prediction.
\<close>

theorem boolean_accepted_counterexample:
  "fst (predict stub_disk (fst (startup stub_disk initial_world))
         (snd (startup stub_disk initial_world))
         (Body (JObj [(''a'', JBool True), (''b'', JStr ''2.5'')]))) =
     Prediction (PStr ''DDoS'') (Finite (9 / 10))"
  by code_simp

section \<open>Integer conversion of digit strings\<close>

lemma digit_char_plain:
  assumes "is_digit_char c"
  shows "\<not> py_isspace c" and "c \<noteq> CHR ''-''" and "c \<noteq> CHR ''+''" and "c \<noteq> CHR ''_''"
  using assms by (auto simp: is_digit_char_def is_decimal_def py_isspace_def)

lemma digit_tail_plain:
  "CHR ''_'' \<notin> set s \<Longrightarrow> digit_tail s = (takeWhile is_decimal s, dropWhile is_decimal s)"
  by (induction s rule: digit_tail.induct) auto

lemma py_strip_plain:
  assumes "s \<noteq> []" and "\<not> py_isspace (hd s)" and "\<not> py_isspace (last s)"
  shows "py_strip s = s"
proof -
  from assms(1,2) have a: "dropWhile py_isspace s = s"
    by (cases s) auto
  from assms(1,3) have "dropWhile py_isspace (rev s) = rev s"
    by (cases "rev s") (auto simp: last_rev [symmetric] simp del: last_rev)
  with a show ?thesis by (simp add: py_strip_def)
qed

lemma py_int_of_digit_string:
  assumes "py_isdigit s"
  shows "py_int_of_str s =
           (if only_decimal_digits s then Some (int (nat_of_digits s)) else None)"
proof -
  from assms have ne: "s \<noteq> []" and all: "\<forall>c\<in>set s. is_digit_char c"
    by (auto simp: py_isdigit_def list_all_iff)
  from ne all have "is_digit_char (hd s)" "is_digit_char (last s)" by auto
  with ne have strip: "py_strip s = s"
    by (auto intro: py_strip_plain dest: digit_char_plain)
  from ne obtain c cs where s: "s = c # cs" by (cases s) auto
  with all have c: "is_digit_char c" by simp
  then have sign: "take_sign s = (False, s)"
    by (auto simp: take_sign_def s dest: digit_char_plain)
  from all have "CHR ''_'' \<notin> set s" by (auto dest: digit_char_plain)
  then have "CHR ''_'' \<notin> set cs" by (simp add: s)
  then have tail: "digit_tail cs = (takeWhile is_decimal cs, dropWhile is_decimal cs)"
    by (rule digit_tail_plain)
  note strip = strip [unfolded s] and sign = sign [unfolded s]
  show ?thesis
  proof (cases "is_decimal c")
    case False
    then show ?thesis
      by (simp add: py_int_of_str_def strip sign digitpart_def s only_decimal_digits_def)
  next
    case True
    then have dp: "digitpart s = Some (c # takeWhile is_decimal cs, dropWhile is_decimal cs)"
      by (simp add: digitpart_def s tail)
    show ?thesis
    proof (cases "list_all is_decimal cs")
      case True
      then have "takeWhile is_decimal cs = cs" "dropWhile is_decimal cs = []"
        by (auto simp: list_all_iff)
      with \<open>is_decimal c\<close> True dp show ?thesis
        by (simp add: py_int_of_str_def strip sign only_decimal_digits_def s)
    next
      case False
      then have "dropWhile is_decimal cs \<noteq> []"
        by (auto simp: list_all_iff dropWhile_eq_Nil_conv)
      with False dp show ?thesis
        by (simp add: py_int_of_str_def strip sign only_decimal_digits_def s)
    qed
  qed
qed

lemma only_decimal_isdigit: "only_decimal_digits s \<Longrightarrow> py_isdigit s"
  by (auto simp: only_decimal_digits_def py_isdigit_def is_digit_char_def list_all_iff)

section \<open>Decoding labels\<close>

lemma lookup_or_str:
  "(if al \<noteq> [] \<and> pid \<in> fst ` set al then map_of al pid else Some (PStr (py_str_of_int pid))) =
   Some (case map_of al pid of Some name \<Rightarrow> name | None \<Rightarrow> PStr (py_str_of_int pid))"
proof (cases "map_of al pid")
  case None
  then have "pid \<notin> fst ` set al" by (simp add: map_of_eq_None_iff)
  with None show ?thesis by simp
next
  case (Some name)
  then have "pid \<in> fst ` set al" by (force dest: map_of_SomeD)
  moreover then have "al \<noteq> []" by auto
  ultimately show ?thesis using Some by simp
qed

lemma decode_try_loaded:
  "decode_try (Some pkg) prediction =
     (case class_id prediction of
        Some pid \<Rightarrow>
          Some (case id_to_name_of (Some pkg) pid of
                  Some name \<Rightarrow> name
                | None \<Rightarrow> PStr (py_str_of_int pid))
      | None \<Rightarrow> None)"
proof (cases prediction)
  case (PStr s)
  show ?thesis
  proof (cases "py_isdigit s")
    case True
    then show ?thesis
      by (cases "label_id_to_name pkg")
        (simp_all add: decode_try_def PStr py_int_of_digit_string id_to_name_of_def lookup_or_str)
  next
    case False
    then have "\<not> only_decimal_digits s" by (auto dest: only_decimal_isdigit)
    with False show ?thesis by (simp add: decode_try_def PStr)
  qed
qed (cases "label_id_to_name pkg"; simp add: decode_try_def id_to_name_of_def lookup_or_str)+

lemma decode_try_no_package:
  "decode_try None prediction = None"
  by (simp add: decode_try_def split: option.splits)

lemma decode_result:
  "(case decode_try (Some pkg) prediction of
      Some r \<Rightarrow> r
    | None \<Rightarrow> if isinstance_str prediction then prediction else PStr (py_str prediction)) =
   decode_spec (id_to_name_of (Some pkg)) prediction"
  by (cases prediction) (simp_all add: decode_try_loaded decode_spec_def split: option.splits)

lemma ensure_loaded_package:
  assumes "\<not> loaded w" and "ensure_loaded d w = (r, w')" and "loaded w'"
  shows "\<exists>pkg. cached_package w' = Some pkg \<and> pkg_pipeline pkg \<noteq> None
           \<and> (label_id_to_name pkg = None) = (label_mapping pkg = None)
           \<and> (label_name_to_id pkg = None) = (label_mapping pkg = None)"
  using assms
  by (auto simp: ensure_loaded_def load_model_file_def normalize_package_def Let_def
      package.defs loaded_package.defs
      split: disk.splits sum.splits option.splits prod.splits if_splits artifact.splits)

lemma after_call_ensure: "after_call d w c = snd (ensure_loaded d w)"
  by (cases c)
    (auto simp: get_pipeline_def get_required_features_def decode_label_def Let_def
      split: prod.splits sum.splits option.splits)

lemma run_calls_invariant:
  assumes "loaded w0 \<longrightarrow> (\<exists>pkg. cached_package w0 = Some pkg \<and> pkg_pipeline pkg \<noteq> None
           \<and> (label_id_to_name pkg = None) = (label_mapping pkg = None)
           \<and> (label_name_to_id pkg = None) = (label_mapping pkg = None))"
  shows "loaded (foldl (after_call d) w0 calls) \<longrightarrow>
         (\<exists>pkg. cached_package (foldl (after_call d) w0 calls) = Some pkg \<and> pkg_pipeline pkg \<noteq> None
           \<and> (label_id_to_name pkg = None) = (label_mapping pkg = None)
           \<and> (label_name_to_id pkg = None) = (label_mapping pkg = None))"
  using assms
proof (induction calls arbitrary: w0)
  case Nil
  then show ?case by simp
next
  case (Cons c calls)
  have "loaded (after_call d w0 c) \<longrightarrow>
      (\<exists>pkg. cached_package (after_call d w0 c) = Some pkg \<and> pkg_pipeline pkg \<noteq> None
           \<and> (label_id_to_name pkg = None) = (label_mapping pkg = None)
           \<and> (label_name_to_id pkg = None) = (label_mapping pkg = None))"
  proof (cases "loaded w0")
    case True
    with Cons.prems show ?thesis
      by (simp add: after_call_ensure ensure_loaded_when_loaded)
  next
    case False
    obtain r w' where e: "ensure_loaded d w0 = (r, w')" by (cases "ensure_loaded d w0")
    from ensure_loaded_package [OF False e] e show ?thesis
      by (simp add: after_call_ensure)
  qed
  from Cons.IH [OF this] show ?case by simp
qed

lemma reachable_package:
  assumes "loaded (run_calls d calls)"
  shows "\<exists>pkg. cached_package (run_calls d calls) = Some pkg \<and> pkg_pipeline pkg \<noteq> None
           \<and> (label_id_to_name pkg = None) = (label_mapping pkg = None)
           \<and> (label_name_to_id pkg = None) = (label_mapping pkg = None)"
proof -
  have "loaded initial_world \<longrightarrow> (\<exists>pkg. cached_package initial_world = Some pkg \<and> pkg_pipeline pkg \<noteq> None
           \<and> (label_id_to_name pkg = None) = (label_mapping pkg = None)
           \<and> (label_name_to_id pkg = None) = (label_mapping pkg = None))"
    by (simp add: initial_world_def)
  from run_calls_invariant [OF this, of d calls] assms show ?thesis
    by (simp add: run_calls_def)
qed

lemma decode_label_with_package:
  assumes "ensure_loaded d w = (Inr u, w')" and "cached_package w' = Some pkg"
  shows "decode_label d w prediction =
           (Inr (decode_spec (id_to_name_of (cached_package w')) prediction), w')"
proof -
  from decode_result [where pkg = pkg and prediction = prediction]
  show ?thesis
    by (cases "decode_try (Some pkg) prediction")
      (auto simp: decode_label_def assms split: if_splits)
qed

lemma run_calls_stub: "stub_world = run_calls stub_disk [GetPipeline]"
  by (simp add: run_calls_def get_pipeline_def ensure_loaded_stub)

text \<open>
  The case analysis of \<^verbatim>\<open>decode_label\<close>, for strings of code points below 256.
  In every state the module can be in, it first makes sure the artifact is loaded, and
  an exception of that load is the only one it lets through. After that it returns
  what \<open>decode_spec\<close> gives for the names of the cached package: an instance of
  \<^verbatim>\<open>int\<close>, or a string of the digits 0 to 9, is looked up as an id and gives the
  name found or else the id written out; any other string comes back unchanged; any
  other value is converted by \<^verbatim>\<open>str\<close>.
\<close>

lemma decode_label_cases:
  assumes "w = run_calls d calls"
  shows "decode_label d w prediction =
           (case ensure_loaded d w of
              (Inl e, w') \<Rightarrow> (Inl e, w')
            | (Inr u, w') \<Rightarrow>
                (Inr (decode_spec (id_to_name_of (cached_package w')) prediction), w'))
         \<and> (loaded w \<longrightarrow>
              decode_label d w prediction =
                (Inr (decode_spec (id_to_name_of (cached_package w)) prediction), w))
         \<and> decode_spec names (PInt i) =
              (case names i of Some name \<Rightarrow> name | None \<Rightarrow> PStr (py_str_of_int i))
         \<and> (only_decimal_digits s \<longrightarrow>
              decode_spec names (PStr s) =
                (case names (int (nat_of_digits s)) of
                   Some name \<Rightarrow> name
                 | None \<Rightarrow> PStr (py_str_of_int (int (nat_of_digits s)))))
         \<and> (\<not> only_decimal_digits s \<longrightarrow> decode_spec names (PStr s) = PStr s)
         \<and> decode_spec names (PObj s' i' j') = PStr s'
         \<and> decode_spec Map.empty (PInt i) = PStr (py_str_of_int i)"
proof -
  obtain r w' where e: "ensure_loaded d w = (r, w')" by (cases "ensure_loaded d w")
  have first: "decode_label d w prediction =
           (case ensure_loaded d w of
              (Inl e, w') \<Rightarrow> (Inl e, w')
            | (Inr u, w') \<Rightarrow>
                (Inr (decode_spec (id_to_name_of (cached_package w')) prediction), w'))"
  proof (cases r)
    case (Inl err)
    with e show ?thesis by (simp add: decode_label_def)
  next
    case (Inr u)
    with e have l: "loaded w'" by (auto dest: ensure_loaded_sets_flag)
    have "\<exists>pkg. cached_package w' = Some pkg"
    proof (cases "loaded w")
      case True
      with e have "w' = w" by (simp add: ensure_loaded_when_loaded)
      with True assms reachable_package [of d calls] show ?thesis by auto
    next
      case False
      from ensure_loaded_package [OF False e l] show ?thesis by blast
    qed
    then obtain pkg where "cached_package w' = Some pkg" ..
    with e Inr decode_label_with_package [of d w u w' pkg prediction] show ?thesis by simp
  qed
  then have second: "loaded w \<longrightarrow>
      decode_label d w prediction =
        (Inr (decode_spec (id_to_name_of (cached_package w)) prediction), w)"
    by (simp add: ensure_loaded_when_loaded)
  have spec: "decode_spec names (PInt i) =
        (case names i of Some name \<Rightarrow> name | None \<Rightarrow> PStr (py_str_of_int i))"
    "only_decimal_digits s \<longrightarrow>
        decode_spec names (PStr s) =
          (case names (int (nat_of_digits s)) of
             Some name \<Rightarrow> name
           | None \<Rightarrow> PStr (py_str_of_int (int (nat_of_digits s))))"
    "\<not> only_decimal_digits s \<longrightarrow> decode_spec names (PStr s) = PStr s"
    "decode_spec names (PObj s' i' j') = PStr s'"
    "decode_spec Map.empty (PInt i) = PStr (py_str_of_int i)"
    by (simp_all add: decode_spec_def)
  from first second spec show ?thesis by (intro conjI)
qed

lemma decode_label_cases_example:
  "stub_world = run_calls stub_disk [GetPipeline] \<and> loaded stub_world
   \<and> decode_label stub_disk stub_world (PInt 1) = (Inr (PStr ''DDoS''), stub_world)
   \<and> decode_label stub_disk stub_world (PInt 7) = (Inr (PStr ''7''), stub_world)
   \<and> decode_label stub_disk stub_world (PStr ''DDoS'') = (Inr (PStr ''DDoS''), stub_world)
   \<and> decode_label stub_disk stub_world (PStr ''01'') = (Inr (PStr ''DDoS''), stub_world)"
proof -
  have l: "loaded stub_world" by (simp add: stub_world_def)
  have m: "id_to_name_of (cached_package stub_world) = [1 \<mapsto> PStr ''DDoS'']"
    by (simp add: id_to_name_of_def stub_world_def stub_package_def)
  have s7: "py_str_of_int 7 = ''7''" by code_simp
  have nd: "\<not> only_decimal_digits ''DDoS''" by (simp add: only_decimal_digits_def is_decimal_def)
  have a: "decode_spec [1 \<mapsto> PStr ''DDoS''] (PInt 1) = PStr ''DDoS''"
    and b: "decode_spec [1 \<mapsto> PStr ''DDoS''] (PInt 7) = PStr ''7''"
    and c: "decode_spec [1 \<mapsto> PStr ''DDoS''] (PStr ''DDoS'') = PStr ''DDoS''"
    by (simp_all add: decode_spec_def s7 nd)
  have od: "only_decimal_digits ''01''" by (simp add: only_decimal_digits_def is_decimal_def)
  have n01: "nat_of_digits ''01'' = 1" by (simp add: nat_of_digits_def digit_value_def)
  have e: "decode_spec [1 \<mapsto> PStr ''DDoS''] (PStr ''01'') = PStr ''DDoS''"
    by (simp add: decode_spec_def od n01)
  note d = decode_label_cases [OF run_calls_stub, THEN conjunct2, THEN conjunct1, rule_format, OF l]
  from d [of "PInt 1"] d [of "PInt 7"] d [of "PStr ''DDoS''"] d [of "PStr ''01''"]
  have "decode_label stub_disk stub_world (PInt 1) = (Inr (PStr ''DDoS''), stub_world)"
    and "decode_label stub_disk stub_world (PInt 7) = (Inr (PStr ''7''), stub_world)"
    and "decode_label stub_disk stub_world (PStr ''DDoS'') = (Inr (PStr ''DDoS''), stub_world)"
    and "decode_label stub_disk stub_world (PStr ''01'') = (Inr (PStr ''DDoS''), stub_world)"
    by (simp_all only: m a b c e)
  with run_calls_stub l show ?thesis by (intro conjI)
qed

text \<open>With no model file, the load that \<^verbatim>\<open>decode_label\<close> starts raises.\<close>

lemma decode_label_unloaded:
  "fst (decode_label NoFile initial_world (PInt 1)) = Inl FileNotFoundError"
  by (simp add: decode_label_def ensure_loaded_def initial_world_def load_model_file_def)

text \<open>
  C5. The code does not treat every integer prediction as the claim says. The handler
  passes the first element of the result of \<^verbatim>\<open>predict\<close>, which for an integer
  class is a \<^verbatim>\<open>numpy.int64\<close>; it is not an instance of \<^verbatim>\<open>int\<close>, so
  \<^verbatim>\<open>decode_label\<close> skips the lookup and returns \<^verbatim>\<open>str\<close> of it. With the label
  mapping \<^verbatim>\<open>{1: "DDoS"}\<close> the \<^verbatim>\<open>int\<close> 1 decodes to \<^verbatim>\<open>"DDoS"\<close>, but the
  \<^verbatim>\<open>numpy.int64\<close> 1 decodes to \<^verbatim>\<open>"1"\<close>, and that is what the request gets.
\<close>

theorem numpy_integer_not_decoded:
  "fst (decode_label stub_disk stub_world (PObj ''1'' (Some 1) False)) = Inr (PStr ''1'')
   \<and> fst (decode_label stub_disk stub_world (PInt 1)) = Inr (PStr ''DDoS'')
   \<and> fst (predict numpy_disk (fst (startup numpy_disk initial_world))
            (snd (startup numpy_disk initial_world))
            (Body (JObj [(''a'', JInt 1), (''b'', JStr ''2.5'')]))) =
       Prediction (PStr ''1'') (Finite (9 / 10))"
  by code_simp

text \<open>
  Without threads, a load that succeeds is the only one the process makes: after any
  calls the state is the one the first call left, with one file load.
\<close>

lemma successful_load_happens_once:
  assumes "ensure_loaded d initial_world = (Inr u, w1)" and "calls \<noteq> []"
  shows "run_calls d calls = w1" and "file_loads w1 = 1"
proof -
  from assms(1) have l: "loaded w1" by (rule ensure_loaded_sets_flag)
  have stay: "foldl (after_call d) w1 more = w1" for more
    by (induction more) (simp_all add: after_call_ensure ensure_loaded_when_loaded l)
  from assms(2) obtain c cs where "calls = c # cs" by (cases calls) auto
  with assms(1) stay show "run_calls d calls = w1"
    by (simp add: run_calls_def after_call_ensure)
  from assms(1) show "file_loads w1 = 1"
    by (auto simp: ensure_loaded_def load_model_file_def initial_world_def
        split: disk.splits sum.splits option.splits prod.splits if_splits)
qed

text \<open>
  C10. In every state that a sequence of calls can reach, if the loaded flag is set
  then the cache holds a package whose pipeline is not \<^verbatim>\<open>None\<close>, with both label
  entries (each \<^verbatim>\<open>None\<close> exactly when the artifact had no label mapping), and each of
  \<^verbatim>\<open>get_pipeline\<close>, \<^verbatim>\<open>get_required_features\<close> and \<^verbatim>\<open>decode_label\<close> returns
  a value and leaves the whole state, the count of file loads included, unchanged.
\<close>

theorem loaded_cache_is_stable:
  assumes "w = run_calls d calls" and "loaded w"
  shows "(\<exists>pkg. cached_package w = Some pkg \<and> pkg_pipeline pkg \<noteq> None
            \<and> (label_id_to_name pkg = None) = (label_mapping pkg = None)
            \<and> (label_name_to_id pkg = None) = (label_mapping pkg = None))
         \<and> get_pipeline d w = (Inr (cached_package w), w)
         \<and> (\<exists>features. get_required_features d w = (Inr features, w))
         \<and> (\<forall>prediction. \<exists>label. decode_label d w prediction = (Inr label, w))
         \<and> (\<forall>more. foldl (after_call d) w more = w)"
proof -
  from assms reachable_package [of d calls]
  obtain pkg where pkg: "cached_package w = Some pkg" "pkg_pipeline pkg \<noteq> None"
    "(label_id_to_name pkg = None) = (label_mapping pkg = None)"
    "(label_name_to_id pkg = None) = (label_mapping pkg = None)"
    by auto
  from assms(2) have e: "ensure_loaded d w = (Inr (), w)" by (rule ensure_loaded_when_loaded)
  have gp: "get_pipeline d w = (Inr (cached_package w), w)"
    by (simp add: get_pipeline_def e)
  have gf: "\<exists>features. get_required_features d w = (Inr features, w)"
    by (simp add: get_required_features_def e pkg(1) Let_def)
  have dl: "\<forall>prediction. \<exists>label. decode_label d w prediction = (Inr label, w)"
    using decode_label_with_package [OF e pkg(1)] by blast
  have "foldl (after_call d) w more = w" for more
    by (induction more) (simp_all add: after_call_ensure e)
  then have ac: "\<forall>more. foldl (after_call d) w more = w" ..
  from pkg have "\<exists>pkg. cached_package w = Some pkg \<and> pkg_pipeline pkg \<noteq> None
            \<and> (label_id_to_name pkg = None) = (label_mapping pkg = None)
            \<and> (label_name_to_id pkg = None) = (label_mapping pkg = None)"
    by (intro exI [of _ pkg] conjI)
  with gp gf dl ac show ?thesis by (intro conjI)
qed

theorem loaded_cache_is_stable_witness:
  "stub_world = run_calls stub_disk [GetPipeline] \<and> loaded stub_world
   \<and> get_pipeline stub_disk stub_world = (Inr (Some stub_package), stub_world)
   \<and> foldl (after_call stub_disk) stub_world [DecodeLabel (PInt 1), GetRequiredFeatures] =
       stub_world"
proof -
  have l: "loaded stub_world" and c: "cached_package stub_world = Some stub_package"
    by (simp_all add: stub_world_def)
  note st = loaded_cache_is_stable [OF run_calls_stub l]
  from st c have g: "get_pipeline stub_disk stub_world = (Inr (Some stub_package), stub_world)"
    by simp
  from st have a: "foldl (after_call stub_disk) stub_world
      [DecodeLabel (PInt 1), GetRequiredFeatures] = stub_world"
    by blast
  from run_calls_stub l g a show ?thesis by (intro conjI)
qed

section \<open>Building the label codec\<close>

lemma label_loop_orientations:
  assumes "\<forall>(i, n)\<in>set ps. py_int_of_str n = None"
  shows "label_loop (name_keyed ps) acc = label_loop (id_keyed ps) acc"
  using assms
proof (induction ps arbitrary: acc)
  case Nil
  show ?case by (simp add: name_keyed_def id_keyed_def)
next
  case (Cons p ps)
  obtain i n where p: "p = (i, n)" by (cases p)
  obtain a b where acc: "acc = (a, b)" by (cases acc)
  from Cons.prems p have n: "py_int_of_str n = None" by simp
  from Cons.prems have rest: "\<forall>(i, n)\<in>set ps. py_int_of_str n = None" by simp
  from Cons.IH [OF rest] n show ?case
    by (simp add: name_keyed_def id_keyed_def p acc)
qed

lemma label_loop_raises:
  assumes "(k, v) \<in> set label_map" and "py_int k = None" and "py_int v = None"
  shows "\<exists>e. label_loop label_map acc = Inl e"
  using assms
proof (induction label_map arbitrary: acc)
  case Nil
  then show ?case by simp
next
  case (Cons kv label_map)
  obtain k' v' where kv: "kv = (k', v')" by (cases kv)
  obtain a b where acc: "acc = (a, b)" by (cases acc)
  show ?case
  proof (cases "(k, v) = kv")
    case True
    with Cons.prems kv show ?thesis by (simp add: acc)
  next
    case False
    with Cons.prems have "(k, v) \<in> set label_map" by simp
    from Cons.IH [OF this Cons.prems(2,3)] show ?thesis
      by (simp add: kv acc split: option.splits)
  qed
qed

lemma ensure_loaded_fresh:
  assumes "\<not> loaded w"
  shows "ensure_loaded (Stored (Container c)) w =
     (case normalize_package (Container c) of
        Inl e \<Rightarrow> (Inl e, w\<lparr>file_loads := Suc (file_loads w)\<rparr>)
      | Inr package \<Rightarrow>
          (case c_label_mapping c of
             None \<Rightarrow>
               (Inr (),
                w\<lparr>file_loads := Suc (file_loads w),
                  cached_package :=
                    Some (package.extend package (loaded_package.fields None None)),
                  loaded := True\<rparr>)
           | Some label_map \<Rightarrow>
               (case label_loop label_map ([], []) of
                  Inl e \<Rightarrow> (Inl e, w\<lparr>file_loads := Suc (file_loads w)\<rparr>)
                | Inr (id_to_name, name_to_id) \<Rightarrow>
                    (Inr (),
                     w\<lparr>file_loads := Suc (file_loads w),
                       cached_package :=
                         Some (package.extend package
                           (loaded_package.fields (Some id_to_name) (Some name_to_id))),
                       loaded := True\<rparr>))))"
  using assms
  by (auto simp: ensure_loaded_def load_model_file_def normalize_package_def Let_def
      split: sum.splits option.splits prod.splits)

lemma decode_label_fresh:
  assumes "\<not> loaded w"
  shows "fst (decode_label (Stored (Container c)) w prediction) =
     (case normalize_package (Container c) of
        Inl e \<Rightarrow> Inl e
      | Inr package \<Rightarrow>
          (case c_label_mapping c of
             None \<Rightarrow> Inr (decode_spec Map.empty prediction)
           | Some label_map \<Rightarrow>
               (case label_loop label_map ([], []) of
                  Inl e \<Rightarrow> Inl e
                | Inr (id_to_name, name_to_id) \<Rightarrow>
                    Inr (decode_spec (map_of id_to_name) prediction))))"
proof -
  obtain r w' where e: "ensure_loaded (Stored (Container c)) w = (r, w')"
    by (cases "ensure_loaded (Stored (Container c)) w")
  show ?thesis
  proof (cases r)
    case (Inl err)
    with e have "fst (decode_label (Stored (Container c)) w prediction) = Inl err"
      by (simp add: decode_label_def)
    moreover from e Inl ensure_loaded_fresh [OF assms, of c]
    have "(case normalize_package (Container c) of
        Inl e \<Rightarrow> Inl e
      | Inr package \<Rightarrow>
          (case c_label_mapping c of
             None \<Rightarrow> Inr (decode_spec Map.empty prediction)
           | Some label_map \<Rightarrow>
               (case label_loop label_map ([], []) of
                  Inl e \<Rightarrow> Inl e
                | Inr (id_to_name, name_to_id) \<Rightarrow>
                    Inr (decode_spec (map_of id_to_name) prediction)))) = Inl err"
      by (auto split: sum.splits option.splits prod.splits)
    ultimately show ?thesis by simp
  next
    case (Inr u)
    with e have l: "loaded w'" by (auto dest: ensure_loaded_sets_flag)
    from ensure_loaded_package [OF assms e l] obtain pkg where pkg: "cached_package w' = Some pkg"
      by blast
    from e Inr decode_label_with_package [of _ w u w' pkg prediction] pkg
    have d: "fst (decode_label (Stored (Container c)) w prediction) =
        Inr (decode_spec (id_to_name_of (Some pkg)) prediction)"
      by simp
    from e Inr pkg ensure_loaded_fresh [OF assms, of c]
    have "(case normalize_package (Container c) of
        Inl e \<Rightarrow> Inl e
      | Inr package \<Rightarrow>
          (case c_label_mapping c of
             None \<Rightarrow> Inr (decode_spec Map.empty prediction)
           | Some label_map \<Rightarrow>
               (case label_loop label_map ([], []) of
                  Inl e \<Rightarrow> Inl e
                | Inr (id_to_name, name_to_id) \<Rightarrow>
                    Inr (decode_spec (map_of id_to_name) prediction)))) =
        Inr (decode_spec (id_to_name_of (Some pkg)) prediction)"
      by (auto simp: id_to_name_of_def package.defs loaded_package.defs
          split: sum.splits option.splits prod.splits)
    with d show ?thesis by simp
  qed
qed

lemma normalize_ignores_labels:
  "(case normalize_package (Container (c\<lparr>c_label_mapping := x\<rparr>)) of Inl e \<Rightarrow> Some e | Inr p \<Rightarrow> None) =
   (case normalize_package (Container (c\<lparr>c_label_mapping := y\<rparr>)) of Inl e \<Rightarrow> Some e | Inr p \<Rightarrow> None)"
  by (simp add: normalize_package_def Let_def)

lemma label_loop_id_keyed:
  "\<exists>a' b'. label_loop (id_keyed ps) (a, b) = Inr (a', b')
     \<and> map_of a' = map_of a ++ map_of (rev (map (\<lambda>(i, n). (i, PStr n)) ps))"
proof (induction ps arbitrary: a b)
  case Nil
  show ?case by (simp add: id_keyed_def)
next
  case (Cons p ps)
  obtain i n where p: "p = (i, n)" by (cases p)
  from Cons.IH [of "AList.update i (PStr n) a" "AList.update n i b"]
  obtain a' b' where
    l: "label_loop (id_keyed ps) (AList.update i (PStr n) a, AList.update n i b) = Inr (a', b')"
    and m: "map_of a' = map_of (AList.update i (PStr n) a)
              ++ map_of (rev (map (\<lambda>(i, n). (i, PStr n)) ps))"
    by blast
  have "map_of (AList.update i (PStr n) a) ++ map_of (rev (map (\<lambda>(i, n). (i, PStr n)) ps)) =
        map_of a ++ map_of (rev (map (\<lambda>(i, n). (i, PStr n)) (p # ps)))"
    by (simp add: update_conv' p map_add_def fun_eq_iff split: option.splits)
  with l m show ?case
    by (simp add: id_keyed_def p)
qed

lemma keys_named: "map fst (map (\<lambda>(i, n). (i, PStr n)) xs) = map fst xs"
  by (induction xs) auto

lemma label_loop_id_keyed_map:
  assumes "distinct (map fst ps)"
  shows "\<exists>a' b'. label_loop (id_keyed ps) ([], []) = Inr (a', b')
     \<and> map_of a' = map_of (map (\<lambda>(i, n). (i, PStr n)) ps)"
proof -
  let ?xs = "map (\<lambda>(i, n). (i, PStr n)) ps"
  from assms have d: "distinct (map fst ?xs)" by (simp only: keys_named)
  then have dr: "distinct (map fst (rev ?xs))" by (simp only: rev_map [symmetric] distinct_rev)
  have "set (rev ?xs) = set ?xs" by (rule set_rev)
  with map_of_inject_set [OF dr d] have "map_of (rev ?xs) = map_of ?xs" by (rule iffD2)
  with label_loop_id_keyed [of ps "[]" "[]"] show ?thesis by simp
qed

lemma same_pairs_same_names:
  assumes ps: "distinct (map fst ps)" and qs: "distinct (map snd qs)" and eq: "set qs = set ps"
  shows "distinct (map fst qs)"
    and "map_of (map (\<lambda>(i, n). (i, PStr n)) qs) = map_of (map (\<lambda>(i, n). (i, PStr n)) ps)"
proof -
  from ps have dp: "distinct ps" by (rule distinct_map [THEN iffD1, THEN conjunct1])
  from qs have dq: "distinct qs" by (rule distinct_map [THEN iffD1, THEN conjunct1])
  from dp dq eq have len: "length qs = length ps"
    by (metis distinct_card)
  from ps have "card (fst ` set ps) = length ps"
    by (metis distinct_card length_map set_map)
  with eq len have "card (set (map fst qs)) = length (map fst qs)" by simp
  then show d: "distinct (map fst qs)" by (rule card_distinct)
  let ?f = "\<lambda>(i, n). (i, PStr n)"
  from ps have d1: "distinct (map fst (map ?f ps))" by (simp only: keys_named)
  from d have d2: "distinct (map fst (map ?f qs))" by (simp only: keys_named)
  from eq have "set (map ?f qs) = set (map ?f ps)" by simp
  with map_of_inject_set [OF d2 d1] show "map_of (map ?f qs) = map_of (map ?f ps)"
    by (rule iffD2)
qed

text \<open>
  C2, as the code has it. Take the same classes written as a mapping keyed by id and
  as a mapping keyed by name: the same (id, name) pairs, in any order, the ids
  distinct in the first and the names distinct in the second. If \<^verbatim>\<open>int\<close> converts
  none of the names, both give the same decoding of every prediction, whatever else
  the artifact holds.
\<close>

theorem codec_orientations_agree:
  assumes names: "\<forall>(i, n)\<in>set ps. py_int_of_str n = None"
    and ids: "distinct (map fst ps)" and keys: "distinct (map snd qs)" and same: "set qs = set ps"
  shows "fst (decode_label (with_labels c (id_keyed ps)) w prediction) =
         fst (decode_label (with_labels c (name_keyed qs)) w prediction)"
proof (cases "loaded w")
  case True
  then show ?thesis by (simp add: decode_label_def ensure_loaded_when_loaded)
next
  case False
  from names same have names': "\<forall>(i, n)\<in>set qs. py_int_of_str n = None" by simp
  from same_pairs_same_names [OF ids keys same]
  have dq: "distinct (map fst qs)"
    and m: "map_of (map (\<lambda>(i, n). (i, PStr n)) qs) = map_of (map (\<lambda>(i, n). (i, PStr n)) ps)"
    by simp_all
  from label_loop_id_keyed_map [OF ids] obtain a b where
    p: "label_loop (id_keyed ps) ([], []) = Inr (a, b)"
    and pm: "map_of a = map_of (map (\<lambda>(i, n). (i, PStr n)) ps)"
    by blast
  from label_loop_id_keyed_map [OF dq] obtain a' b' where
    q: "label_loop (id_keyed qs) ([], []) = Inr (a', b')"
    and qm: "map_of a' = map_of (map (\<lambda>(i, n). (i, PStr n)) qs)"
    by blast
  from q label_loop_orientations [OF names', of "([], [])"]
  have q': "label_loop (name_keyed qs) ([], []) = Inr (a', b')" by simp
  from pm qm m have "map_of a' = map_of a" by simp
  with p q' normalize_ignores_labels [where c = c and x = "Some (id_keyed ps)"
      and y = "Some (name_keyed qs)"]
  show ?thesis
    by (simp add: with_labels_def decode_label_fresh [OF False] split: sum.splits)
qed

theorem codec_orientations_agree_witness:
  "py_int_of_str ''BENIGN'' = None \<and> py_int_of_str ''DDoS'' = None
   \<and> fst (decode_label (with_labels stub_container (id_keyed [(0, ''BENIGN''), (1, ''DDoS'')]))
        initial_world (PInt 0)) = Inr (PStr ''BENIGN'')
   \<and> fst (decode_label (with_labels stub_container (name_keyed [(1, ''DDoS''), (0, ''BENIGN'')]))
        initial_world (PInt 0)) = Inr (PStr ''BENIGN'')
   \<and> fst (decode_label (with_labels stub_container [(PStr ''BENIGN'', PInt 0), (PStr ''DDoS'', PInt 1)])
        initial_world (PInt 1)) = Inr (PStr ''DDoS'')"
proof -
  let ?ps = "[(0::int, ''BENIGN''), (1, ''DDoS'')]"
  let ?qs = "[(1::int, ''DDoS''), (0, ''BENIGN'')]"
  have n: "py_int_of_str ''BENIGN'' = None" "py_int_of_str ''DDoS'' = None"
    by code_simp+
  then have h: "\<forall>(i, n)\<in>set ?ps. py_int_of_str n = None"
    by simp
  have ids: "distinct (map fst ?ps)" and keys: "distinct (map snd ?qs)" by simp_all
  have same: "set ?qs = set ?ps" by (simp add: insert_commute)
  have a: "fst (decode_label (with_labels stub_container (id_keyed ?ps))
        initial_world (PInt 0)) = Inr (PStr ''BENIGN'')"
    by code_simp
  have b: "fst (decode_label
        (with_labels stub_container [(PStr ''BENIGN'', PInt 0), (PStr ''DDoS'', PInt 1)])
        initial_world (PInt 1)) = Inr (PStr ''DDoS'')"
    by code_simp
  from codec_orientations_agree [OF h ids keys same, of stub_container initial_world "PInt 0"] a
  have c: "fst (decode_label (with_labels stub_container (name_keyed ?qs))
        initial_world (PInt 0)) = Inr (PStr ''BENIGN'')"
    by simp
  from n a c b show ?thesis by (intro conjI)
qed

text \<open>
  C2 as stated fails for a class whose name is a digit string: \<^verbatim>\<open>{0: "7"}\<close>
  decodes 0 as \<^verbatim>\<open>"7"\<close>, but in \<^verbatim>\<open>{"7": 0}\<close> the key converts to the id 7, and 0
  is decoded as \<^verbatim>\<open>"0"\<close>.
\<close>

theorem digit_name_counterexample:
  "fst (decode_label (with_labels stub_container [(PInt 0, PStr ''7'')]) initial_world (PInt 0)) =
     Inr (PStr ''7'')
   \<and> fst (decode_label (with_labels stub_container [(PStr ''7'', PInt 0)]) initial_world (PInt 0)) =
     Inr (PStr ''0'')"
  by code_simp

text \<open>
  C9. When the artifact is a dict with a pipeline and its label mapping has an item
  of which neither the key nor the value converts by \<^verbatim>\<open>int\<close>, the loop that builds
  the codec raises, the load fails and leaves the cache unloaded, the application
  starts without a package, and every request to predict is answered 500 "Model not
  loaded".
\<close>

theorem unconvertible_label_blocks_startup:
  assumes "normalize_package (Container c) = Inr package"
    and "c_label_mapping c = Some label_map"
    and "(k, v) \<in> set label_map" and "py_int k = None" and "py_int v = None"
  shows "(\<exists>e. label_loop label_map ([], []) = Inl e)
         \<and> (\<exists>e w1. ensure_loaded (Stored (Container c)) initial_world = (Inl e, w1) \<and> \<not> loaded w1)
         \<and> PIPELINE_PACKAGE (fst (startup (Stored (Container c)) initial_world)) = None
         \<and> \<not> health (fst (startup (Stored (Container c)) initial_world))
         \<and> (\<forall>req w. predict (Stored (Container c)) (fst (startup (Stored (Container c)) initial_world))
                        w req = (ModelNotLoaded, w))
         \<and> status_code ModelNotLoaded = 500"
proof -
  from label_loop_raises [OF assms(3,4,5)] obtain e where e: "label_loop label_map ([], []) = Inl e"
    by blast
  have nl: "\<not> loaded initial_world" by (simp add: initial_world_def)
  from ensure_loaded_fresh [OF nl, of c] assms(1,2) e
  have el: "ensure_loaded (Stored (Container c)) initial_world =
      (Inl e, initial_world\<lparr>file_loads := Suc (file_loads initial_world)\<rparr>)"
    by simp
  then have st: "PIPELINE_PACKAGE (fst (startup (Stored (Container c)) initial_world)) = None"
    by (simp add: startup_def get_pipeline_def)
  from el nl have "\<exists>e w1. ensure_loaded (Stored (Container c)) initial_world = (Inl e, w1) \<and> \<not> loaded w1"
    by simp
  with e st show ?thesis
    by (simp add: health_def predict_def)
qed

theorem unconvertible_label_blocks_startup_witness:
  "c_label_mapping (stub_container\<lparr>c_label_mapping := Some [(PStr ''BENIGN'', PStr ''benign'')]\<rparr>) =
     Some [(PStr ''BENIGN'', PStr ''benign'')]
   \<and> py_int (PStr ''BENIGN'') = None \<and> py_int (PStr ''benign'') = None
   \<and> predict (Stored (Container
          (stub_container\<lparr>c_label_mapping := Some [(PStr ''BENIGN'', PStr ''benign'')]\<rparr>)))
        (fst (startup (Stored (Container
          (stub_container\<lparr>c_label_mapping := Some [(PStr ''BENIGN'', PStr ''benign'')]\<rparr>)))
           initial_world))
        stub_world (Body (JObj [(''a'', JInt 1), (''b'', JInt 2)])) = (ModelNotLoaded, stub_world)"
proof -
  let ?c = "stub_container\<lparr>c_label_mapping := Some [(PStr ''BENIGN'', PStr ''benign'')]\<rparr>"
  have n: "normalize_package (Container ?c) =
      Inr \<lparr>pkg_pipeline = Some stub_pipeline, required_raw_features = Some [''a'', ''b''],
           label_mapping = Some [(PStr ''BENIGN'', PStr ''benign'')], model_metadata = None\<rparr>"
    by (simp add: normalize_package_def stub_container_def py_or_def truthy_def stub_pipeline_def)
  have m: "c_label_mapping ?c = Some [(PStr ''BENIGN'', PStr ''benign'')]" by simp
  have i: "(PStr ''BENIGN'', PStr ''benign'') \<in> set [(PStr ''BENIGN'', PStr ''benign'')]" by simp
  have k: "py_int (PStr ''BENIGN'') = None" by code_simp
  have v: "py_int (PStr ''benign'') = None" by code_simp
  from unconvertible_label_blocks_startup [OF n m i k v] m k v
  show ?thesis by blast
qed

section \<open>The feature schema\<close>

lemma introspect_Some_iff:
  "introspect p = Some cols \<longleftrightarrow>
     (\<exists>pl steps sel. p = Some pl \<and> named_steps pl = Some steps
        \<and> steps ''selector'' = Some sel \<and> required_columns sel = Value cols)"
  by (auto simp: introspect_def split: option.splits attr.splits)

lemma loaded_package_of_artifact:
  assumes "\<not> loaded w" and "ensure_loaded (Stored a) w = (Inr u, w')"
    and "cached_package w' = Some package"
  shows "required_raw_features package =
           (case a of Container c \<Rightarrow> c_required_raw_features c | Bare obj \<Rightarrow> None)"
    and "pkg_pipeline package =
           (case a of
              Container c \<Rightarrow> py_or (py_or (c_pipeline c) (c_model c)) (c_pipeline_obj c)
            | Bare obj \<Rightarrow> obj)"
  using assms
  by (auto simp: ensure_loaded_def load_model_file_def normalize_package_def Let_def
      package.defs loaded_package.defs
      split: sum.splits option.splits prod.splits if_splits artifact.splits)

text \<open>
  C6. When the load of a stored object succeeds, \<^verbatim>\<open>get_required_features\<close>
  returns, on that call and on every later one, and the application keeps as its
  schema: the feature list the object declares whenever it is not \<^verbatim>\<open>None\<close>, an
  empty list included; otherwise the columns found by introspection of the pipeline
  the object holds, which are those of its step named \<^verbatim>\<open>selector\<close> when that has
  the attribute \<^verbatim>\<open>required_columns\<close>, as a \<open>ColumnSelector\<close> has; otherwise the
  empty list.
\<close>

theorem required_features_precedence:
  assumes fresh: "\<not> loaded w" and ok: "ensure_loaded (Stored a) w = (Inr u, w')"
  shows "get_required_features (Stored a) w =
           (Inr (case declared_features a of
                   Some declared \<Rightarrow> declared
                 | None \<Rightarrow>
                     (case introspect (stored_pipeline a) of
                        Some cols \<Rightarrow> cols
                      | None \<Rightarrow> [])), w')
         \<and> get_required_features d' w' =
           (Inr (case declared_features a of
                   Some declared \<Rightarrow> declared
                 | None \<Rightarrow>
                     (case introspect (stored_pipeline a) of
                        Some cols \<Rightarrow> cols
                      | None \<Rightarrow> [])), w')
         \<and> REQUIRED_FEATURES (fst (startup (Stored a) w)) =
             (case declared_features a of
                Some declared \<Rightarrow> declared
              | None \<Rightarrow>
                  (case introspect (stored_pipeline a) of
                     Some cols \<Rightarrow> cols
                   | None \<Rightarrow> []))
         \<and> (declared_features a = Some [] \<longrightarrow>
               get_required_features (Stored a) w = (Inr [], w'))
         \<and> (\<exists>package. cached_package w' = Some package
               \<and> required_raw_features package = declared_features a
               \<and> pkg_pipeline package = stored_pipeline a)
         \<and> (introspect p = Some cols \<longleftrightarrow>
               (\<exists>pl steps sel. p = Some pl \<and> named_steps pl = Some steps
                  \<and> steps ''selector'' = Some sel \<and> required_columns sel = Value cols))
         \<and> introspect (Some (pl\<lparr>named_steps := Some (steps(''selector'' \<mapsto> ColumnSelector cols))\<rparr>)) =
               Some cols"
proof -
  let ?features = "case declared_features a of
      Some declared \<Rightarrow> declared
    | None \<Rightarrow> (case introspect (stored_pipeline a) of Some cols \<Rightarrow> cols | None \<Rightarrow> [])"
  from ok have l: "loaded w'" by (rule ensure_loaded_sets_flag)
  from ensure_loaded_package [OF fresh ok l] obtain package where
    c: "cached_package w' = Some package" by blast
  from loaded_package_of_artifact [OF fresh ok c]
  have r: "required_raw_features package = declared_features a"
    and p: "pkg_pipeline package = stored_pipeline a"
    by (simp_all add: declared_features_def stored_pipeline_def)
  have pkg_level: "(case required_raw_features package of
        Some declared \<Rightarrow> declared
      | None \<Rightarrow> (case introspect (pkg_pipeline package) of Some cols \<Rightarrow> cols | None \<Rightarrow> [])) =
      ?features"
    by (simp only: r p)
  from ok c have "get_required_features (Stored a) w =
      (Inr (case required_raw_features package of
              Some declared \<Rightarrow> declared
            | None \<Rightarrow> (case introspect (pkg_pipeline package) of Some cols \<Rightarrow> cols | None \<Rightarrow> [])),
       w')"
    by (simp add: get_required_features_def Let_def split: option.splits)
  then have g: "get_required_features (Stored a) w = (Inr ?features, w')"
    by (simp only: pkg_level)
  have g': "get_required_features d' w' = (Inr ?features, w')" for d'
  proof -
    from l c have "get_required_features d' w' =
        (Inr (case required_raw_features package of
                Some declared \<Rightarrow> declared
              | None \<Rightarrow>
                  (case introspect (pkg_pipeline package) of Some cols \<Rightarrow> cols | None \<Rightarrow> [])),
         w')"
      by (simp add: get_required_features_def ensure_loaded_when_loaded Let_def
          split: option.splits)
    then show ?thesis by (simp only: pkg_level)
  qed
  from ok have "get_pipeline (Stored a) w = (Inr (cached_package w'), w')"
    by (simp add: get_pipeline_def)
  with g' [of "Stored a"] have s: "REQUIRED_FEATURES (fst (startup (Stored a) w)) = ?features"
    by (simp add: startup_def)
  from g have e: "declared_features a = Some [] \<longrightarrow>
      get_required_features (Stored a) w = (Inr [], w')"
    by simp
  from c r p have x: "\<exists>package. cached_package w' = Some package
      \<and> required_raw_features package = declared_features a
      \<and> pkg_pipeline package = stored_pipeline a"
    by blast
  have i: "introspect (Some (pl\<lparr>named_steps := Some (steps(''selector'' \<mapsto> ColumnSelector cols))\<rparr>)) =
      Some cols"
    by (simp add: introspect_def ColumnSelector_def)
  from g g' [of d'] s e x introspect_Some_iff [of p cols] i show ?thesis by (intro conjI)
qed

lemma fresh_initial: "\<not> loaded initial_world"
  by (simp add: initial_world_def)

lemma example_loads:
  "ensure_loaded empty_schema_disk initial_world =
     (Inr (), snd (ensure_loaded empty_schema_disk initial_world))"
  "ensure_loaded (Stored (Bare (Some selector_pipeline))) initial_world =
     (Inr (), snd (ensure_loaded (Stored (Bare (Some selector_pipeline))) initial_world))"
  "ensure_loaded (Stored (Bare (Some stub_pipeline))) initial_world =
     (Inr (), snd (ensure_loaded (Stored (Bare (Some stub_pipeline))) initial_world))"
  "ensure_loaded (Stored (Container model_key_container)) initial_world =
     (Inr (), snd (ensure_loaded (Stored (Container model_key_container)) initial_world))"
  by (simp_all add: ensure_loaded_def initial_world_def empty_schema_disk_def load_model_file_def
      normalize_package_def stub_container_def model_key_container_def py_or_def truthy_def
      stub_pipeline_def selector_pipeline_def)

lemma example_features:
  "declared_features (Container (stub_container
       \<lparr>c_pipeline := Some selector_pipeline, c_required_raw_features := Some []\<rparr>)) = Some []"
  "declared_features (Container stub_container) = Some [''a'', ''b'']"
  "declared_features (Bare (Some selector_pipeline)) = None"
  "declared_features (Bare (Some stub_pipeline)) = None"
  "declared_features (Container model_key_container) = None"
  "introspect (stored_pipeline (Bare (Some selector_pipeline))) = Some [''x'', ''y'']"
  "introspect (stored_pipeline (Bare (Some stub_pipeline))) = None"
  "introspect (stored_pipeline (Container model_key_container)) = Some [''x'', ''y'']"
  by (simp_all add: declared_features_def stored_pipeline_def stub_container_def
      model_key_container_def py_or_def truthy_def stub_pipeline_def selector_pipeline_def
      introspect_def ColumnSelector_def)

theorem required_features_precedence_witness:
  "fst (get_required_features empty_schema_disk initial_world) = Inr []
   \<and> fst (get_required_features stub_disk initial_world) = Inr [''a'', ''b'']
   \<and> fst (get_required_features (Stored (Bare (Some selector_pipeline))) initial_world) =
       Inr [''x'', ''y'']
   \<and> fst (get_required_features (Stored (Container model_key_container)) initial_world) =
       Inr [''x'', ''y'']
   \<and> fst (get_required_features (Stored (Bare (Some stub_pipeline))) initial_world) = Inr []
   \<and> REQUIRED_FEATURES (fst (startup (Stored (Bare (Some selector_pipeline))) initial_world)) =
       [''x'', ''y'']"
proof -
  note t = required_features_precedence [OF fresh_initial]
  from t [OF example_loads(1) [unfolded empty_schema_disk_def], THEN conjunct1]
  have a: "fst (get_required_features empty_schema_disk initial_world) = Inr []"
    by (simp add: example_features empty_schema_disk_def)
  from t [OF ensure_loaded_stub [unfolded stub_disk_def], THEN conjunct1]
  have b: "fst (get_required_features stub_disk initial_world) = Inr [''a'', ''b'']"
    by (simp add: example_features stub_disk_def)
  from t [OF example_loads(2), THEN conjunct1]
  have c: "fst (get_required_features (Stored (Bare (Some selector_pipeline))) initial_world) =
      Inr [''x'', ''y'']"
    by (simp add: example_features)
  from t [OF example_loads(4), THEN conjunct1]
  have d: "fst (get_required_features (Stored (Container model_key_container)) initial_world) =
      Inr [''x'', ''y'']"
    by (simp add: example_features)
  from t [OF example_loads(3), THEN conjunct1]
  have e: "fst (get_required_features (Stored (Bare (Some stub_pipeline))) initial_world) = Inr []"
    by (simp add: example_features)
  from t [OF example_loads(2), THEN conjunct2, THEN conjunct2, THEN conjunct1]
  have f: "REQUIRED_FEATURES (fst (startup (Stored (Bare (Some selector_pipeline))) initial_world)) =
      [''x'', ''y'']"
    by (simp add: example_features)
  from a b c d e f show ?thesis by (intro conjI)
qed

section \<open>The prediction\<close>

lemma startup_loaded:
  assumes "startup d w0 = (st, w)" and "PIPELINE_PACKAGE st = Some package"
  shows "loaded w \<and> cached_package w = Some package"
proof -
  obtain r w1 where g: "get_pipeline d w0 = (r, w1)" by (cases "get_pipeline d w0")
  from assms g obtain p where r: "r = Inr p"
    by (cases r) (auto simp: startup_def)
  from g r have l: "loaded w1" and c: "cached_package w1 = p"
    by (auto simp: get_pipeline_def split: prod.splits sum.splits dest: ensure_loaded_sets_flag)
  from l have "snd (get_required_features d w1) = w1"
    by (simp add: get_required_features_def ensure_loaded_when_loaded Let_def split: option.splits)
  with assms g r l c show ?thesis
    by (auto simp: startup_def split: prod.splits sum.splits)
qed









section \<open>File loads of the application\<close>

text \<open>
  The application calls the loader once at import and, if that fails, never again:
  whatever requests follow, the state stays the one that startup left, with at most
  one file load.
\<close>

lemma ensure_loaded_counts:
  "file_loads (snd (ensure_loaded d w)) \<le> Suc (file_loads w)"
  by (auto simp: ensure_loaded_def load_model_file_def
      split: disk.splits sum.splits option.splits prod.splits)

lemma predict_keeps_world:
  assumes "PIPELINE_PACKAGE st \<noteq> None \<longrightarrow> loaded w"
  shows "snd (predict d st w req) = w"
proof (cases "PIPELINE_PACKAGE st")
  case None
  then show ?thesis by (simp add: predict_def)
next
  case (Some package)
  with assms have "loaded w" by simp
  then have "snd (decode_label d w p) = w" for p
    by (simp add: decode_label_def ensure_loaded_when_loaded split: option.splits)
  then have dl: "decode_label d w p = (r, w') \<Longrightarrow> w' = w" for p r w'
    by (metis snd_conv)
  have "snd (run_pipeline d package w df) = w" for df
    by (auto simp: run_pipeline_def dest: dl
        split: option.splits sum.splits list.splits prod.splits)
  with Some show ?thesis
    by (auto simp: predict_def Let_def split: request.splits json.splits prod.splits)
qed

lemma app_loads_at_most_once:
  assumes "startup d initial_world = (st, w)"
  shows "serve d st w reqs = w" and "file_loads w \<le> 1"
proof -
  have l: "PIPELINE_PACKAGE st \<noteq> None \<longrightarrow> loaded w"
    using startup_loaded [OF assms] by auto
  show "serve d st w reqs = w"
    unfolding serve_def by (induction reqs) (simp_all add: predict_keeps_world [OF l])
  obtain r w1 where g: "get_pipeline d initial_world = (r, w1)"
    by (cases "get_pipeline d initial_world")
  then have w1: "w1 = snd (ensure_loaded d initial_world)"
    by (auto simp: get_pipeline_def split: prod.splits sum.splits)
  with ensure_loaded_counts [of d initial_world] have c: "file_loads w1 \<le> 1"
    by (simp add: initial_world_def)
  show "file_loads w \<le> 1"
  proof (cases r)
    case (Inl e)
    with assms g c show ?thesis by (simp add: startup_def)
  next
    case (Inr p)
    with g have "loaded w1"
      by (auto simp: get_pipeline_def split: prod.splits sum.splits dest: ensure_loaded_sets_flag)
    then have "snd (get_required_features d w1) = w1"
      by (simp add: get_required_features_def ensure_loaded_when_loaded Let_def split: option.splits)
    with assms g Inr c show ?thesis
      by (auto simp: startup_def split: prod.splits sum.splits)
  qed
qed

end
